theory Spec2Isabelle
  imports Main "HOL-Library.Sublist" "HOL-Library.AList"
begin

section \<open>Severity levels and output styling\<close>

text \<open>
  The dictionary \<^verbatim>\<open>issue_levels\<close> of \<^verbatim>\<open>analyze_results.py\<close>. A lookup of a key that
  is not in the dictionary raises \<^verbatim>\<open>KeyError\<close> in Python; here it is \<open>None\<close>.
\<close>

definition issue_levels :: "string \<Rightarrow> nat option" where
  "issue_levels = map_of [(''fatal'', 0), (''error'', 1), (''warning'', 2), (''information'', 3)]"

text \<open>
  The two formatter classes. \<^verbatim>\<open>Formatter.__getattr__\<close> answers the empty string for
  every attribute; \<^verbatim>\<open>ColorFormatter\<close> holds the ANSI escape sequences (\<^verbatim>\<open>\033\<close> is the
  character \<open>0x1B\<close>).
\<close>

record formatter =
  RESET :: string
  OK :: string
  ERROR :: string
  WARNING :: string
  INFORMATION :: string
  HEADING :: string

definition Formatter :: formatter where
  "Formatter = \<lparr>RESET = [], OK = [], ERROR = [], WARNING = [], INFORMATION = [], HEADING = []\<rparr>"

definition ColorFormatter :: formatter where
  "ColorFormatter =
     \<lparr>RESET = CHR 0x1B # ''[0m'', OK = CHR 0x1B # ''[1;32m'', ERROR = CHR 0x1B # ''[1;31m'',
      WARNING = CHR 0x1B # ''[1;33m'', INFORMATION = CHR 0x1B # ''[1;34m'',
      HEADING = CHR 0x1B # ''[1;37m''\<rparr>"

section \<open>Issues and results\<close>

text \<open>
  Class \<^verbatim>\<open>Issue\<close>: five attributes, all strings as read from XML attributes (the field
  \<^verbatim>\<open>text\<close> is called \<open>issue_text\<close> here). \<open>Issue_print\<close> is the argument of the single
  \<^verbatim>\<open>print\<close> call of \<^verbatim>\<open>Issue.print\<close>; it holds one newline character.
\<close>

record Issue =
  line :: string
  col :: string
  severity :: string
  issue_text :: string
  expression :: string

definition Issue_print :: "formatter \<Rightarrow> Issue \<Rightarrow> string" where
  "Issue_print fm i =
     (let color = (if severity i \<in> set [''fatal'', ''error''] then ERROR fm
                   else if severity i = ''warning'' then WARNING fm
                   else INFORMATION fm)
      in ''  -  '' @ color @ severity i @ RESET fm @ '' at '' @ expression i
           @ '' ('' @ line i @ '', '' @ col i @ ''):'' @ [CHR 0x0A]
           @ ''     '' @ issue_text i)"

text \<open>
  The exceptions the program can meet, and the ways a run stops before the verdict is
  printed: \<open>Exit1 l\<close> is \<^verbatim>\<open>print(l); sys.exit(1)\<close>, \<open>Raise e\<close> is an exception nothing
  catches.
\<close>

datatype exn =
  AttributeError
  | KeyError string
  | Exception string
  | FileNotFoundError string
  | ParseError string
  | YAMLError string

datatype abort = Exit1 string | Raise exn

section \<open>Element trees\<close>

text \<open>
  What \<^verbatim>\<open>xml.etree.ElementTree\<close> gives the program: an element has a tag (with the
  namespace written out, \<^verbatim>\<open>{http://hl7.org/fhir}issue\<close>), attributes and child elements.
  The paths the program uses are built from three steps of ElementPath: the children with
  a given tag, the children with a given tag and attribute value, and the descendants
  with a given tag in document order (\<^verbatim>\<open>.//tag\<close>, the element itself left out).
  \<^verbatim>\<open>find\<close> answers the first element of a path or \<^verbatim>\<open>None\<close>.
\<close>

datatype xml = Element (tag: string) (attrib: "(string \<times> string) list") (children: "xml list")

definition ns :: "string \<Rightarrow> string" where
  "ns name = ''{http://hl7.org/fhir}'' @ name"

definition child_step :: "string \<Rightarrow> xml list \<Rightarrow> xml list" where
  "child_step t es = concat (map (\<lambda>e. filter (\<lambda>c. tag c = t) (children e)) es)"

definition attr_step :: "string \<Rightarrow> string \<Rightarrow> xml list \<Rightarrow> xml list" where
  "attr_step k v es = filter (\<lambda>e. map_of (attrib e) k = Some v) es"

fun iter_xml :: "xml \<Rightarrow> xml list" where
  "iter_xml (Element t a cs) = Element t a cs # concat (map iter_xml cs)"

definition descendant_step :: "string \<Rightarrow> xml list \<Rightarrow> xml list" where
  "descendant_step t es =
     concat (map (\<lambda>e. filter (\<lambda>c. tag c = t) (concat (map iter_xml (children e)))) es)"

definition find_first :: "xml list \<Rightarrow> xml option" where
  "find_first es = (case es of [] \<Rightarrow> None | e # _ \<Rightarrow> Some e)"

text \<open>
  \<^verbatim>\<open>x.find(path).attrib["value"]\<close>: \<^verbatim>\<open>AttributeError\<close> when \<^verbatim>\<open>find\<close> answered
  \<^verbatim>\<open>None\<close>, \<^verbatim>\<open>KeyError\<close> when the element has no attribute \<^verbatim>\<open>value\<close>.
\<close>

definition attrib_value :: "xml option \<Rightarrow> exn + string" where
  "attrib_value r =
     (case r of
        None \<Rightarrow> Inl AttributeError
      | Some e \<Rightarrow>
          (case map_of (attrib e) ''value'' of
             None \<Rightarrow> Inl (KeyError ''value'')
           | Some v \<Rightarrow> Inr v))"

section \<open>The inputs of a run\<close>

text \<open>
  The files a run reads, as the libraries hand them to the program: \<^verbatim>\<open>ET.parse\<close> answers an
  element tree, raises \<^verbatim>\<open>FileNotFoundError\<close> or raises \<^verbatim>\<open>ParseError\<close>; \<^verbatim>\<open>open\<close>
  and \<^verbatim>\<open>yaml.safe_load\<close> likewise.

  A rule of the YAML file is a dictionary; the program looks at three of its keys. Each is
  \<open>None\<close> when the key is absent. \<open>processed\<close> is the key the program itself writes
  (\<^verbatim>\<open>known_issue["processed"] = True\<close>) and later tests for presence.

  The dictionary under \<^verbatim>\<open>"ignored issues"\<close> maps an expression to a list of rules; it is
  an association list in the order of the file, since the program iterates over it. The
  top-level dictionary maps a resource id (\<open>None\<close> is the YAML key \<^verbatim>\<open>null\<close>) to a
  dictionary that may or may not have the key \<^verbatim>\<open>"ignored issues"\<close>: it is an
  association list from the id to \<open>Some\<close> of the rules under that key, or to \<open>None\<close> when
  the key is absent. A Python dictionary has every key once; a lookup in an association
  list takes the first pair of a key. \<open>YamlOther\<close> is every document that is not a
  dictionary (an empty file loads as \<^verbatim>\<open>None\<close>). The shape the program expects of the
  document is fixed by these types; a document of another shape, and YAML anchors that
  would share one rule between two places, are outside the model.
\<close>

datatype 'a load = NoFile | Malformed | Loaded 'a

record known_issue =
  message :: "string option"
  reason :: "string option"
  processed :: "bool option"

type_synonym curr_ignored = "(string \<times> known_issue list) list"

type_synonym ignored = "(string option \<times> curr_ignored option) list"

datatype yaml = YamlDict ignored | YamlOther

record files =
  ET_parse :: "string \<Rightarrow> xml load"
  yaml_safe_load :: "string \<Rightarrow> yaml load"

text \<open>
  The options after \<^verbatim>\<open>parser.parse_args()\<close>. \<^verbatim>\<open>--fail-at\<close> and \<^verbatim>\<open>--verbosity-level\<close>
  are of type \<^verbatim>\<open>choice\<close> over three names, so no other value reaches the program.
\<close>

datatype choice = ChError | ChWarning | ChInformation

fun choice_name :: "choice \<Rightarrow> string" where
  "choice_name ChError = ''error''"
| "choice_name ChWarning = ''warning''"
| "choice_name ChInformation = ''information''"

record options =
  fail_at :: choice
  verbosity_level :: choice
  colorize :: bool
  ignored_issues_file :: "string option"

section \<open>Class Result\<close>

text \<open>
  \<^verbatim>\<open>Result.__init__\<close> parses the checked resource itself to find its id: the first
  descendant \<^verbatim>\<open>f:id\<close> of the root. Only \<^verbatim>\<open>AttributeError\<close> is caught. The attribute
  \<^verbatim>\<open>id\<close> is called \<open>res_id\<close> here.
\<close>

record Result =
  file_path :: string
  res_id :: "string option"
  issues :: "Issue list"

definition Result_init :: "files \<Rightarrow> string \<Rightarrow> exn + Result" where
  "Result_init fs path =
     (case ET_parse fs path of
        NoFile \<Rightarrow> Inl (FileNotFoundError path)
      | Malformed \<Rightarrow> Inl (ParseError path)
      | Loaded root \<Rightarrow>
          (case attrib_value (find_first (descendant_step (ns ''id'') [root])) of
             Inl AttributeError \<Rightarrow> Inr \<lparr>file_path = path, res_id = None, issues = []\<rparr>
           | Inl e \<Rightarrow> Inl e
           | Inr v \<Rightarrow> Inr \<lparr>file_path = path, res_id = Some v, issues = []\<rparr>))"

definition addIssue :: "Result \<Rightarrow> string \<Rightarrow> string \<Rightarrow> string \<Rightarrow> string \<Rightarrow> string \<Rightarrow> exn + Result" where
  "addIssue r l c sev t ex =
     (if issue_levels sev = None
      then Inl (Exception (''Unknown severity '' @ [CHR 0x27] @ sev @ [CHR 0x27]
                            @ '' when validating file '' @ file_path r))
      else Inr (r\<lparr>issues := issues r
                   @ [\<lparr>line = l, col = c, severity = sev, issue_text = t, expression = ex\<rparr>]\<rparr>))"

section \<open>Reading one issue\<close>

text \<open>
  The four extractions at the head of the issue loop, in the order of the source. The
  description and the expression each have a \<^verbatim>\<open>try\<close> of their own; line and column
  share one, so an \<^verbatim>\<open>AttributeError\<close> on either sets both to \<^verbatim>\<open>"?"\<close>. The severity is
  read outside any \<^verbatim>\<open>try\<close>.
\<close>

definition findall_issue :: "xml \<Rightarrow> xml list" where
  "findall_issue outcome = child_step (ns ''issue'') [outcome]"

definition find_extension :: "string \<Rightarrow> string \<Rightarrow> xml \<Rightarrow> xml option" where
  "find_extension url t e =
     find_first (child_step (ns t) (attr_step ''url'' url (child_step (ns ''extension'') [e])))"

definition find_text :: "xml \<Rightarrow> xml option" where
  "find_text issue = find_first (child_step (ns ''text'') (child_step (ns ''details'') [issue]))"

definition find_line :: "xml \<Rightarrow> xml option" where
  "find_line issue =
     find_extension ''http://hl7.org/fhir/StructureDefinition/operationoutcome-issue-line''
       ''valueInteger'' issue"

definition find_col :: "xml \<Rightarrow> xml option" where
  "find_col issue =
     find_extension ''http://hl7.org/fhir/StructureDefinition/operationoutcome-issue-col''
       ''valueInteger'' issue"

definition find_severity :: "xml \<Rightarrow> xml option" where
  "find_severity issue = find_first (child_step (ns ''severity'') [issue])"

definition find_expression :: "xml \<Rightarrow> xml option" where
  "find_expression issue = find_first (child_step (ns ''expression'') [issue])"

definition get_text :: "xml \<Rightarrow> exn + string" where
  "get_text issue =
     (case attrib_value (find_text issue) of
        Inl AttributeError \<Rightarrow> Inr ''_No description_''
      | Inl e \<Rightarrow> Inl e
      | Inr v \<Rightarrow> Inr v)"

definition get_line_col :: "xml \<Rightarrow> exn + string \<times> string" where
  "get_line_col issue =
     (case attrib_value (find_line issue) of
        Inl AttributeError \<Rightarrow> Inr (''?'', ''?'')
      | Inl e \<Rightarrow> Inl e
      | Inr l \<Rightarrow>
          (case attrib_value (find_col issue) of
             Inl AttributeError \<Rightarrow> Inr (''?'', ''?'')
           | Inl e \<Rightarrow> Inl e
           | Inr c \<Rightarrow> Inr (l, c)))"

definition get_severity :: "xml \<Rightarrow> exn + string" where
  "get_severity issue = attrib_value (find_severity issue)"

definition get_expression :: "xml \<Rightarrow> exn + string" where
  "get_expression issue =
     (case attrib_value (find_expression issue) of
        Inl AttributeError \<Rightarrow> Inr []
      | Inl e \<Rightarrow> Inl e
      | Inr v \<Rightarrow> Inr v)"

section \<open>Matching an issue against the known issues\<close>

text \<open>
  \<^verbatim>\<open>f"{result.id}"\<close> of an absent id is the text \<^verbatim>\<open>None\<close>.
\<close>

definition str_id :: "string option \<Rightarrow> string" where
  "str_id i = (case i of None \<Rightarrow> ''None'' | Some s \<Rightarrow> s)"

definition no_reason_line :: "string option \<Rightarrow> string \<Rightarrow> string" where
  "no_reason_line rid ex =
     ''Issue at '' @ str_id rid @ ''/'' @ ex @ '' ignored without providing a reason''"

definition stale_line :: "string option \<Rightarrow> string \<Rightarrow> string" where
  "stale_line rid ex =
     ''An ignored issue was provided for '' @ str_id rid @ ''/'' @ ex
       @ '', but the issue didn't occur''"

text \<open>
  The two nested tests on a rule:
  \<^verbatim>\<open>"message" in known_issue\<close> and \<^verbatim>\<open>text.startswith(known_issue["message"])\<close>.
\<close>

definition rule_matches :: "string \<Rightarrow> known_issue \<Rightarrow> bool" where
  "rule_matches t k = (case message k of None \<Rightarrow> False | Some m \<Rightarrow> prefix m t)"

text \<open>
  The loop \<^verbatim>\<open>for known_issue in curr_ignored_issues[expression]\<close>. It has no
  \<^verbatim>\<open>break\<close>: every rule of the list is looked at. The answer is the final value of
  \<^verbatim>\<open>issue_ignored\<close> together with the rules as the loop leaves them, or the exit taken
  at a matching rule without a reason.
\<close>

fun match_known_issues ::
  "string option \<Rightarrow> string \<Rightarrow> string \<Rightarrow> known_issue list \<Rightarrow> abort + bool \<times> known_issue list" where
  "match_known_issues rid ex t [] = Inr (False, [])"
| "match_known_issues rid ex t (k # ks) =
     (if rule_matches t k then
        (if reason k = None then Inl (Exit1 (no_reason_line rid ex))
         else
           (case match_known_issues rid ex t ks of
              Inl a \<Rightarrow> Inl a
            | Inr (ign, ks') \<Rightarrow> Inr (True, k\<lparr>processed := Some True\<rparr> # ks')))
      else
        (case match_known_issues rid ex t ks of
           Inl a \<Rightarrow> Inl a
         | Inr (ign, ks') \<Rightarrow> Inr (ign, k # ks')))"

text \<open>
  The \<^verbatim>\<open>if\<close>/\<^verbatim>\<open>elif\<close> that decides \<^verbatim>\<open>issue_ignored\<close>. The "All OK" test is the
  \<^verbatim>\<open>elif\<close> branch: it is only reached when the expression is not a key of
  \<^verbatim>\<open>curr_ignored_issues\<close>. The rules are changed in place, so the dictionary keeps its
  order.
\<close>

definition check_ignored ::
  "xml \<Rightarrow> string option \<Rightarrow> curr_ignored \<Rightarrow> string \<Rightarrow> string \<Rightarrow> string
     \<Rightarrow> abort + bool \<times> curr_ignored" where
  "check_ignored outcome rid cur sev t ex =
     (case map_of cur ex of
        Some rules \<Rightarrow>
          (case match_known_issues rid ex t rules of
             Inl a \<Rightarrow> Inl a
           | Inr (ign, rules') \<Rightarrow> Inr (ign, AList.update ex rules' cur))
      | None \<Rightarrow>
          Inr (sev = ''information'' \<and> t = ''All OK''
                 \<and> length (findall_issue outcome) = 1, cur))"

text \<open>The body of \<^verbatim>\<open>for issue in outcome.findall("f:issue", ns)\<close>, and the loop.\<close>

definition process_issue ::
  "xml \<Rightarrow> curr_ignored \<Rightarrow> Result \<Rightarrow> xml \<Rightarrow> abort + curr_ignored \<times> Result" where
  "process_issue outcome cur result issue =
     (case get_text issue of
        Inl e \<Rightarrow> Inl (Raise e)
      | Inr t \<Rightarrow>
     (case get_line_col issue of
        Inl e \<Rightarrow> Inl (Raise e)
      | Inr (l, c) \<Rightarrow>
     (case get_severity issue of
        Inl e \<Rightarrow> Inl (Raise e)
      | Inr sev \<Rightarrow>
     (case get_expression issue of
        Inl e \<Rightarrow> Inl (Raise e)
      | Inr ex \<Rightarrow>
     (case check_ignored outcome (res_id result) cur sev t ex of
        Inl a \<Rightarrow> Inl a
      | Inr (issue_ignored, cur') \<Rightarrow>
          (if \<not> issue_ignored then
             (case addIssue result l c sev t ex of
                Inl e \<Rightarrow> Inl (Raise e)
              | Inr result' \<Rightarrow> Inr (cur', result'))
           else Inr (cur', result)))))))"

fun process_issues ::
  "xml \<Rightarrow> curr_ignored \<Rightarrow> Result \<Rightarrow> xml list \<Rightarrow> abort + curr_ignored \<times> Result" where
  "process_issues outcome cur result [] = Inr (cur, result)"
| "process_issues outcome cur result (i # rest) =
     (case process_issue outcome cur result i of
        Inl a \<Rightarrow> Inl a
      | Inr (cur', result') \<Rightarrow> process_issues outcome cur' result' rest)"

text \<open>
  The check after the issues of one outcome: the first rule without the key
  \<^verbatim>\<open>processed\<close>, in the order of the dictionary, prints and exits.
\<close>

fun check_processed :: "string option \<Rightarrow> curr_ignored \<Rightarrow> abort option" where
  "check_processed rid [] = None"
| "check_processed rid ((ex, rules) # rest) =
     (if list_ex (\<lambda>k. processed k = None) rules
      then Some (Exit1 (stale_line rid ex))
      else check_processed rid rest)"

section \<open>Walking the report\<close>

text \<open>
  \<open>lookup_ignored\<close> is the test
  \<^verbatim>\<open>result.id in ignored_issues and "ignored issues" in ignored_issues[result.id]\<close> with its
  default \<^verbatim>\<open>{}\<close>. The rules are shared with the top-level dictionary, so what the issue
  loop wrote is seen by every later outcome of the same id: \<open>store_ignored\<close> writes the
  rules back where they were taken from.
\<close>

definition lookup_ignored :: "ignored \<Rightarrow> string option \<Rightarrow> curr_ignored" where
  "lookup_ignored ign rid = (case map_of ign rid of Some (Some cur) \<Rightarrow> cur | _ \<Rightarrow> [])"

definition store_ignored :: "ignored \<Rightarrow> string option \<Rightarrow> curr_ignored \<Rightarrow> ignored" where
  "store_ignored ign rid cur =
     (case map_of ign rid of Some (Some _) \<Rightarrow> AList.update rid (Some cur) ign | _ \<Rightarrow> ign)"

definition file_name_of :: "xml \<Rightarrow> exn + string" where
  "file_name_of outcome =
     attrib_value
       (find_extension ''http://hl7.org/fhir/StructureDefinition/operationoutcome-file''
          ''valueString'' outcome)"

text \<open>The body of \<^verbatim>\<open>for outcome in outcomes\<close>, and the loop that fills \<^verbatim>\<open>results\<close>.\<close>

definition process_outcome :: "files \<Rightarrow> ignored \<Rightarrow> xml \<Rightarrow> abort + ignored \<times> Result" where
  "process_outcome fs ign outcome =
     (case file_name_of outcome of
        Inl e \<Rightarrow> Inl (Raise e)
      | Inr file_name \<Rightarrow>
     (case Result_init fs file_name of
        Inl e \<Rightarrow> Inl (Raise e)
      | Inr result \<Rightarrow>
     (case process_issues outcome (lookup_ignored ign (res_id result)) result
             (findall_issue outcome) of
        Inl a \<Rightarrow> Inl a
      | Inr (cur', result') \<Rightarrow>
     (case check_processed (res_id result) cur' of
        Some a \<Rightarrow> Inl a
      | None \<Rightarrow> Inr (store_ignored ign (res_id result) cur', result')))))"

fun process_outcomes ::
  "files \<Rightarrow> ignored \<Rightarrow> Result list \<Rightarrow> xml list \<Rightarrow> abort + ignored \<times> Result list" where
  "process_outcomes fs ign results [] = Inr (ign, results)"
| "process_outcomes fs ign results (outcome # rest) =
     (case process_outcome fs ign outcome of
        Inl a \<Rightarrow> Inl a
      | Inr (ign', result) \<Rightarrow> process_outcomes fs ign' (results @ [result]) rest)"

definition outcomes_of :: "xml \<Rightarrow> xml list" where
  "outcomes_of root =
     (if tag root = ns ''OperationOutcome'' then [root]
      else descendant_step (ns ''OperationOutcome'') [root])"

section \<open>The verdict\<close>

text \<open>
  The loop over \<^verbatim>\<open>results\<close>. Each function answers the lines printed and either the
  value of \<^verbatim>\<open>success\<close> afterwards or the \<^verbatim>\<open>KeyError\<close> of \<^verbatim>\<open>issue_levels[...]\<close>.
  A line is the argument of one \<^verbatim>\<open>print\<close> call; \<^verbatim>\<open>print()\<close> is the empty line.
  \<^verbatim>\<open>if result.id:\<close> holds for an id that is neither \<^verbatim>\<open>None\<close> nor empty.
\<close>

fun print_issues ::
  "formatter \<Rightarrow> nat \<Rightarrow> nat \<Rightarrow> bool \<Rightarrow> Issue list \<Rightarrow> string list \<times> (exn + bool)" where
  "print_issues fm fail_level verbosity success [] = ([], Inr success)"
| "print_issues fm fail_level verbosity success (i # rest) =
     (case issue_levels (severity i) of
        None \<Rightarrow> ([], Inl (KeyError (severity i)))
      | Some lv \<Rightarrow>
          (case print_issues fm fail_level verbosity (if lv \<le> fail_level then False else success) rest of
             (out, r) \<Rightarrow> ((if lv \<le> verbosity then [Issue_print fm i] else []) @ out, r)))"

definition id_str :: "formatter \<Rightarrow> Result \<Rightarrow> string" where
  "id_str fm result =
     HEADING fm @ ''== '' @ file_path result
       @ (case res_id result of
            None \<Rightarrow> []
          | Some i \<Rightarrow> if i = [] then [] else '' ('' @ i @ '')'')"

fun print_results ::
  "formatter \<Rightarrow> nat \<Rightarrow> nat \<Rightarrow> bool \<Rightarrow> Result list \<Rightarrow> string list \<times> (exn + bool)" where
  "print_results fm fail_level verbosity success [] = ([], Inr success)"
| "print_results fm fail_level verbosity success (result # rest) =
     (if length (issues result) > 0 then
        (case print_issues fm fail_level verbosity success (issues result) of
           (out, Inl e) \<Rightarrow> (id_str fm result # out, Inl e)
         | (out, Inr success') \<Rightarrow>
             (case print_results fm fail_level verbosity success' rest of
                (out', r) \<Rightarrow> (id_str fm result # out @ [[]] @ out', r)))
      else print_results fm fail_level verbosity success rest)"

text \<open>
  How a run ends: by falling off the end of the script, by \<^verbatim>\<open>sys.exit(n)\<close>, by
  \<^verbatim>\<open>parser.error(msg)\<close> or by an exception nothing catches. \<^verbatim>\<open>OptionParser.error\<close>
  of \<^verbatim>\<open>optparse\<close> prints the usage and the message to stderr and calls
  \<^verbatim>\<open>self.exit(2, ...)\<close>; the interpreter ends with status 1 after a traceback.
\<close>

datatype halt = Returned | SysExit nat | ParserError string | Uncaught exn

fun exit_status :: "halt \<Rightarrow> nat" where
  "exit_status Returned = 0"
| "exit_status (SysExit n) = n"
| "exit_status (ParserError msg) = 2"
| "exit_status (Uncaught e) = 1"

definition verdict :: "formatter \<Rightarrow> nat \<Rightarrow> nat \<Rightarrow> Result list \<Rightarrow> string list \<times> halt" where
  "verdict fm fail_level verbosity results =
     (case print_results fm fail_level verbosity True results of
        (out, Inl e) \<Rightarrow> (out, Uncaught e)
      | (out, Inr success) \<Rightarrow>
          if \<not> success
          then (out @ [ERROR fm @ ''There were errors during validation'' @ RESET fm], SysExit 1)
          else (out @ [OK fm @ ''All well'' @ RESET fm], Returned))"

section \<open>The script\<close>

text \<open>
  The two checks on the command line, before anything is read: the function has no access
  to the files. \<^verbatim>\<open>len(args) != 1\<close> is every list that is not \<open>[report]\<close>; on success the
  answer holds \<^verbatim>\<open>args[0]\<close> and the two levels.
\<close>

definition check_options :: "options \<Rightarrow> string list \<Rightarrow> halt + string \<times> nat \<times> nat" where
  "check_options opts args =
     (case args of
        [report] \<Rightarrow>
          (case issue_levels (choice_name (fail_at opts)) of
             None \<Rightarrow> Inl (Uncaught (KeyError (choice_name (fail_at opts))))
           | Some fail_level \<Rightarrow>
          (case issue_levels (choice_name (verbosity_level opts)) of
             None \<Rightarrow> Inl (Uncaught (KeyError (choice_name (verbosity_level opts))))
           | Some verbosity \<Rightarrow>
               if fail_level > verbosity
               then Inl (ParserError ''Chosen verbosity level would silence fatal issues'')
               else Inr (report, fail_level, verbosity)))
      | _ \<Rightarrow> Inl (ParserError ''Exactly one argument expected''))"

text \<open>
  \<^verbatim>\<open>if options.ignored_issues:\<close> holds for a path that is given and not empty. A loaded
  document that is not a dictionary counts as \<^verbatim>\<open>{}\<close>.
\<close>

definition load_ignored_issues :: "options \<Rightarrow> files \<Rightarrow> exn + ignored" where
  "load_ignored_issues opts fs =
     (case ignored_issues_file opts of
        None \<Rightarrow> Inr []
      | Some path \<Rightarrow>
          if path = [] then Inr []
          else
            (case yaml_safe_load fs path of
               NoFile \<Rightarrow> Inl (FileNotFoundError path)
             | Malformed \<Rightarrow> Inl (YAMLError path)
             | Loaded (YamlDict d) \<Rightarrow> Inr d
             | Loaded YamlOther \<Rightarrow> Inr []))"

definition abort_result :: "abort \<Rightarrow> string list \<times> halt" where
  "abort_result a = (case a of Exit1 l \<Rightarrow> ([l], SysExit 1) | Raise e \<Rightarrow> ([], Uncaught e))"

definition main :: "options \<Rightarrow> string list \<Rightarrow> files \<Rightarrow> string list \<times> halt" where
  "main opts args fs =
     (case check_options opts args of
        Inl h \<Rightarrow> ([], h)
      | Inr (report, fail_level, verbosity) \<Rightarrow>
     (case load_ignored_issues opts fs of
        Inl e \<Rightarrow> ([], Uncaught e)
      | Inr ign \<Rightarrow>
     (case ET_parse fs report of
        NoFile \<Rightarrow> ([], Uncaught (FileNotFoundError report))
      | Malformed \<Rightarrow> ([], Uncaught (ParseError report))
      | Loaded root \<Rightarrow>
     (case process_outcomes fs ign [] (outcomes_of root) of
        Inl a \<Rightarrow> abort_result a
      | Inr (ign', results) \<Rightarrow>
          verdict (if colorize opts then ColorFormatter else Formatter)
            fail_level verbosity results))))"

section \<open>Predicates used in the statements\<close>

text \<open>
  The test \<^verbatim>\<open>issue_levels[issue.severity] <= n\<close> of the verdict loop, false when the
  severity is no key of \<^verbatim>\<open>issue_levels\<close>, and the test \<^verbatim>\<open>severity in issue_levels\<close> of
  \<^verbatim>\<open>addIssue\<close>.
\<close>

definition rank_le :: "nat \<Rightarrow> Issue \<Rightarrow> bool" where
  "rank_le n i = (case issue_levels (severity i) of None \<Rightarrow> False | Some lv \<Rightarrow> lv \<le> n)"

definition known_severity :: "Issue \<Rightarrow> bool" where
  "known_severity i = (issue_levels (severity i) \<noteq> None)"

text \<open>
  Some rule of the dictionary has neither the key \<^verbatim>\<open>message\<close> nor the key
  \<^verbatim>\<open>processed\<close>.
\<close>

definition stale_forever :: "curr_ignored \<Rightarrow> bool" where
  "stale_forever cur =
     list_ex (\<lambda>(ex, rules). list_ex (\<lambda>k. message k = None \<and> processed k = None) rules) cur"

section \<open>Example inputs\<close>

text \<open>
  Small reports, resources and rules for the concrete runs below: an issue with a severity,
  a description and an expression (no line, no column); an outcome for a checked file; a
  resource file with an id; a rule with a message and a reason.
\<close>

definition ex_issue :: "string \<Rightarrow> string \<Rightarrow> string \<Rightarrow> xml" where
  "ex_issue sev t ex =
     Element (ns ''issue'') []
       [Element (ns ''severity'') [(''value'', sev)] [],
        Element (ns ''details'') [] [Element (ns ''text'') [(''value'', t)] []],
        Element (ns ''expression'') [(''value'', ex)] []]"

definition ex_outcome :: "string \<Rightarrow> xml list \<Rightarrow> xml" where
  "ex_outcome path is =
     Element (ns ''OperationOutcome'') []
       (Element (ns ''extension'')
          [(''url'', ''http://hl7.org/fhir/StructureDefinition/operationoutcome-file'')]
          [Element (ns ''valueString'') [(''value'', path)] []] # is)"

definition ex_bundle :: "xml list \<Rightarrow> xml" where
  "ex_bundle outcomes =
     Element (ns ''Bundle'') []
       (map (\<lambda>outcome. Element (ns ''entry'') [] [Element (ns ''resource'') [] [outcome]]) outcomes)"

definition ex_resource :: "string \<Rightarrow> xml" where
  "ex_resource i = Element (ns ''Patient'') [] [Element (ns ''id'') [(''value'', i)] []]"

definition ex_rule :: "string \<Rightarrow> known_issue" where
  "ex_rule m = \<lparr>message = Some m, reason = Some ''accepted'', processed = None\<rparr>"

definition ex_options :: options where
  "ex_options =
     \<lparr>fail_at = ChError, verbosity_level = ChInformation, colorize = False,
      ignored_issues_file = Some ''ignored.yml''\<rparr>"

definition ex_issue_line_only :: xml where
  "ex_issue_line_only =
     Element (ns ''issue'') []
       [Element (ns ''severity'') [(''value'', ''error'')] [],
        Element (ns ''extension'')
          [(''url'', ''http://hl7.org/fhir/StructureDefinition/operationoutcome-issue-line'')]
          [Element (ns ''valueInteger'') [(''value'', ''5'')] []]]"

definition ex_issue_located :: xml where
  "ex_issue_located =
     Element (ns ''issue'') []
       [Element (ns ''severity'') [(''value'', ''error'')] [],
        Element (ns ''extension'')
          [(''url'', ''http://hl7.org/fhir/StructureDefinition/operationoutcome-issue-line'')]
          [Element (ns ''valueInteger'') [(''value'', ''5'')] []],
        Element (ns ''extension'')
          [(''url'', ''http://hl7.org/fhir/StructureDefinition/operationoutcome-issue-col'')]
          [Element (ns ''valueInteger'') [(''value'', ''12'')] []]]"

definition ex_files :: "xml \<Rightarrow> yaml load \<Rightarrow> files" where
  "ex_files report yml =
     \<lparr>ET_parse = (\<lambda>p. if p = ''report.xml'' then Loaded report
                      else if p = ''a.xml'' then Loaded (ex_resource ''a'')
                      else if p = ''b.xml'' then Loaded (ex_resource ''b'')
                      else NoFile),
      yaml_safe_load = (\<lambda>p. if p = ''ignored.yml'' then yml else NoFile)\<rparr>"

definition ex_report_error :: xml where
  "ex_report_error = ex_outcome ''a.xml'' [ex_issue ''error'' ''Bad name'' ''Patient.name'']"

definition ex_two_stale :: ignored where
  "ex_two_stale =
     [(Some ''a'', Some [(''Patient.name'', [ex_rule ''Bad''])]),
      (Some ''b'', Some [(''Patient.id'', [ex_rule ''Wrong''])])]"

definition ex_report_two :: xml where
  "ex_report_two = ex_bundle [ex_outcome ''a.xml'' [], ex_outcome ''b.xml'' []]"

definition ex_no_reason :: "string \<Rightarrow> ignored" where
  "ex_no_reason m =
     [(Some ''a'', Some [(''Patient.name'', [\<lparr>message = Some m, reason = None, processed = None\<rparr>])])]"

definition ex_rules_a :: "known_issue list \<Rightarrow> ignored" where
  "ex_rules_a rules = [(Some ''a'', Some [(''Patient.name'', rules)])]"

definition ex_report_bogus :: xml where
  "ex_report_bogus = ex_outcome ''a.xml'' [ex_issue ''bogus'' ''Bad name'' ''Patient.name'']"

definition ex_all_ok :: xml where
  "ex_all_ok =
     Element (ns ''issue'') []
       [Element (ns ''severity'') [(''value'', ''information'')] [],
        Element (ns ''details'') [] [Element (ns ''text'') [(''value'', ''All OK'')] []]]"

definition ex_result_a :: Result where
  "ex_result_a = \<lparr>file_path = ''a.xml'', res_id = Some ''a'', issues = []\<rparr>"

definition ex_all_ok_kept :: Issue where
  "ex_all_ok_kept =
     \<lparr>line = ''?'', col = ''?'', severity = ''information'', issue_text = ''All OK'', expression = []\<rparr>"

definition ex_no_message :: known_issue where
  "ex_no_message = \<lparr>message = None, reason = Some ''accepted'', processed = None\<rparr>"

definition ex_issue_no_severity :: xml where
  "ex_issue_no_severity =
     Element (ns ''issue'') []
       [Element (ns ''details'') [] [Element (ns ''text'') [(''value'', ''Bad name'')] []],
        Element (ns ''expression'') [(''value'', ''Patient.name'')] []]"

definition ex_report_stale_then_match :: xml where
  "ex_report_stale_then_match =
     ex_bundle [ex_outcome ''a.xml'' [],
                ex_outcome ''b.xml'' [ex_issue ''error'' ''Bad name'' ''Patient.name'']]"

definition ex_stale_then_no_reason :: ignored where
  "ex_stale_then_no_reason =
     [(Some ''a'', Some [(''Patient.id'', [ex_rule ''Wrong''])]),
      (Some ''b'', Some [(''Patient.name'',
         [\<lparr>message = Some ''Bad'', reason = None, processed = None\<rparr>])])]"

definition ex_empty_key :: ignored where
  "ex_empty_key = [(Some ''a'', Some [([], [])])]"

section \<open>The matching loop\<close>

lemma match_known_issues_eq:
  "match_known_issues rid ex t ks =
     (if list_ex (\<lambda>k. rule_matches t k \<and> reason k = None) ks
      then Inl (Exit1 (no_reason_line rid ex))
      else Inr (list_ex (rule_matches t) ks,
                map (\<lambda>k. if rule_matches t k then k\<lparr>processed := Some True\<rparr> else k) ks))"
  by (induction ks) simp_all

lemma check_ignored_eq:
  "check_ignored outcome rid cur sev t ex =
     (case map_of cur ex of
        None \<Rightarrow> Inr (sev = ''information'' \<and> t = ''All OK'' \<and> length (findall_issue outcome) = 1, cur)
      | Some rules \<Rightarrow>
          if list_ex (\<lambda>k. rule_matches t k \<and> reason k = None) rules
          then Inl (Exit1 (no_reason_line rid ex))
          else Inr (list_ex (rule_matches t) rules,
                    AList.update ex
                      (map (\<lambda>k. if rule_matches t k then k\<lparr>processed := Some True\<rparr> else k) rules) cur))"
  by (simp add: check_ignored_def match_known_issues_eq split: option.splits)

text \<open>
  C3, as the code has it. The loop over the rules of an expression has no \<^verbatim>\<open>break\<close>.
  If some rule that matches the text has no reason, the loop exits with the diagnostic;
  otherwise it marks every rule whose message is a prefix of the text as processed (not
  only the first one), leaves every other rule as it was, and the issue is ignored exactly
  when at least one rule matched.
\<close>

theorem match_marks_every_matching_rule:
  "match_known_issues rid ex t ks =
     (if list_ex (\<lambda>k. rule_matches t k \<and> reason k = None) ks
      then Inl (Exit1 (no_reason_line rid ex))
      else Inr (list_ex (rule_matches t) ks,
                map (\<lambda>k. if rule_matches t k then k\<lparr>processed := Some True\<rparr> else k) ks))"
  by (induction ks) simp_all

text \<open>
  C3, the claim as stated fails: two rules whose messages both start the text
  \<^verbatim>\<open>Bad name: x\<close>. The second rule is marked as well as the first.
\<close>

theorem match_first_only_counterexample:
  "match_known_issues (Some ''a'') ''Patient.name'' ''Bad name: x''
     [ex_rule ''Bad'', ex_rule ''Bad name'']
   = Inr (True, [(ex_rule ''Bad'')\<lparr>processed := Some True\<rparr>,
                 (ex_rule ''Bad name'')\<lparr>processed := Some True\<rparr>])"
  by (simp add: rule_matches_def ex_rule_def)

section \<open>Optional fields of an issue\<close>

text \<open>
  C7, as the code has it. An absent element never raises: the description becomes
  \<^verbatim>\<open>_No description_\<close>, the expression the empty string. Line and column are read in one
  \<^verbatim>\<open>try\<close>: when the line element is absent, or the line is there and the column element
  is absent, both become \<^verbatim>\<open>?\<close>; both are kept only when both are there.
\<close>

theorem optional_fields_default:
  "(find_text issue = None \<longrightarrow> get_text issue = Inr ''_No description_'')
   \<and> (find_expression issue = None \<longrightarrow> get_expression issue = Inr [])
   \<and> (find_line issue = None \<or> ((\<exists>l. attrib_value (find_line issue) = Inr l) \<and> find_col issue = None)
        \<longrightarrow> get_line_col issue = Inr (''?'', ''?''))
   \<and> (attrib_value (find_line issue) = Inr l \<and> attrib_value (find_col issue) = Inr c
        \<longrightarrow> get_line_col issue = Inr (l, c))"
  by (auto simp: get_text_def get_expression_def get_line_col_def attrib_value_def)

theorem optional_fields_default_witness:
  "get_text ex_issue_line_only = Inr ''_No description_''
   \<and> get_expression ex_issue_line_only = Inr []
   \<and> get_line_col ex_issue_line_only = Inr (''?'', ''?'')
   \<and> get_line_col (ex_issue ''error'' ''Bad name'' ''Patient.name'') = Inr (''?'', ''?'')
   \<and> get_line_col ex_issue_located = Inr (''5'', ''12'')"
proof -
  have a: "find_text ex_issue_line_only = None" by code_simp
  have b: "find_expression ex_issue_line_only = None" by code_simp
  have c: "attrib_value (find_line ex_issue_line_only) = Inr ''5''" by code_simp
  have d: "find_col ex_issue_line_only = None" by code_simp
  have e: "find_line (ex_issue ''error'' ''Bad name'' ''Patient.name'') = None" by code_simp
  have f: "attrib_value (find_line ex_issue_located) = Inr ''5''" by code_simp
  have g: "attrib_value (find_col ex_issue_located) = Inr ''12''" by code_simp
  from optional_fields_default [of ex_issue_line_only]
       optional_fields_default [of "ex_issue ''error'' ''Bad name'' ''Patient.name''"]
       optional_fields_default [of ex_issue_located "''5''" "''12''"] a b c d e f g
  show ?thesis by simp
qed

text \<open>
  C7, the claim as stated fails: an issue that has a line (\<^verbatim>\<open>5\<close>) and no column. The
  line is lost with the column; it is not kept while the column alone is unknown.
\<close>

theorem line_without_col_counterexample:
  "attrib_value (find_line ex_issue_line_only) = Inr ''5''
   \<and> find_col ex_issue_line_only = None
   \<and> get_line_col ex_issue_line_only = Inr (''?'', ''?'')"
  by code_simp

section \<open>The checks on the command line\<close>

lemma abort_result_not_ParserError: "snd (abort_result a) \<noteq> ParserError msg"
  by (cases a) (simp_all add: abort_result_def)

lemma verdict_not_ParserError: "snd (verdict fm fl vl rs) \<noteq> ParserError msg"
  by (simp add: verdict_def split: prod.splits sum.splits)

lemma main_ParserError:
  "snd (main opts args fs) = ParserError msg \<longleftrightarrow> check_options opts args = Inl (ParserError msg)"
  by (auto simp: main_def abort_result_not_ParserError verdict_not_ParserError
           split: sum.splits prod.splits load.splits)

text \<open>
  C9. \<open>fl\<close> and \<open>vl\<close> are the levels of \<^verbatim>\<open>--fail-at\<close> and \<^verbatim>\<open>--verbosity-level\<close>. When
  \<open>fl\<close> is greater than \<open>vl\<close> the run ends in \<^verbatim>\<open>parser.error\<close> whatever the files hold
  (the result is the same for every file system, and \<open>check_options\<close> does not see the
  files); with exactly one argument the message is the one of the threshold check. When
  \<open>fl \<le> vl\<close> no run ends with that message.
\<close>

theorem threshold_check_before_files:
  assumes "issue_levels (choice_name (fail_at opts)) = Some fl"
    and "issue_levels (choice_name (verbosity_level opts)) = Some vl"
  shows "(vl < fl \<longrightarrow>
            (\<exists>msg. check_options opts args = Inl (ParserError msg)
                  \<and> (\<forall>fs. main opts args fs = ([], ParserError msg))
                  \<and> (length args = 1 \<longrightarrow> msg = ''Chosen verbosity level would silence fatal issues'')))
         \<and> (fl \<le> vl \<longrightarrow>
            (\<forall>fs. snd (main opts args fs) \<noteq> ParserError ''Chosen verbosity level would silence fatal issues''))"
proof (intro conjI impI)
  assume "vl < fl"
  with assms show "\<exists>msg. check_options opts args = Inl (ParserError msg)
                  \<and> (\<forall>fs. main opts args fs = ([], ParserError msg))
                  \<and> (length args = 1 \<longrightarrow> msg = ''Chosen verbosity level would silence fatal issues'')"
    by (auto simp: check_options_def main_def split: list.splits)
next
  assume "fl \<le> vl"
  with assms have "check_options opts args \<noteq> Inl (ParserError ''Chosen verbosity level would silence fatal issues'')"
    by (auto simp: check_options_def split: list.splits)
  then show "\<forall>fs. snd (main opts args fs) \<noteq> ParserError ''Chosen verbosity level would silence fatal issues''"
    by (simp add: main_ParserError)
qed

theorem threshold_check_before_files_witness:
  "(\<forall>fs. main (ex_options\<lparr>fail_at := ChInformation, verbosity_level := ChWarning\<rparr>) [''report.xml''] fs
         = ([], ParserError ''Chosen verbosity level would silence fatal issues''))
   \<and> (\<forall>fs. snd (main ex_options [''report.xml''] fs)
         \<noteq> ParserError ''Chosen verbosity level would silence fatal issues'')"
proof -
  have a: "issue_levels (choice_name (fail_at (ex_options\<lparr>fail_at := ChInformation, verbosity_level := ChWarning\<rparr>))) = Some 3"
    by (simp add: issue_levels_def)
  have b: "issue_levels (choice_name (verbosity_level (ex_options\<lparr>fail_at := ChInformation, verbosity_level := ChWarning\<rparr>))) = Some 2"
    by (simp add: issue_levels_def)
  have c: "issue_levels (choice_name (fail_at ex_options)) = Some 1"
    by (simp add: issue_levels_def ex_options_def)
  have d: "issue_levels (choice_name (verbosity_level ex_options)) = Some 3"
    by (simp add: issue_levels_def ex_options_def)
  from threshold_check_before_files [OF a b, of "[''report.xml'']"]
       threshold_check_before_files [OF c d, of "[''report.xml'']"]
  show ?thesis by auto
qed

section \<open>Issues kept in a result\<close>

text \<open>
  Every issue that \<^verbatim>\<open>addIssue\<close> stores has a severity of \<^verbatim>\<open>issue_levels\<close>, so the
  lookups of the verdict loop never fail on the results of a walk; the walk changes neither
  the path nor the id of a result.
\<close>

lemma print_issues_known:
  "list_all known_severity xs \<Longrightarrow>
   print_issues fm fl vl s xs
     = (map (Issue_print fm) (filter (rank_le vl) xs), Inr (s \<and> \<not> list_ex (rank_le fl) xs))"
  by (induction xs arbitrary: s) (auto simp: known_severity_def rank_le_def)

lemma print_results_known_ex:
  "list_all (\<lambda>r. list_all known_severity (issues r)) rs \<Longrightarrow>
   \<exists>out. print_results fm fl vl s rs
     = (out, Inr (s \<and> \<not> list_ex (\<lambda>r. list_ex (rank_le fl) (issues r)) rs))"
proof (induction rs arbitrary: s)
  case Nil
  then show ?case by simp
next
  case (Cons r rs)
  from Cons.prems have k: "list_all known_severity (issues r)"
    and ks: "list_all (\<lambda>r. list_all known_severity (issues r)) rs" by simp_all
  show ?case
  proof (cases "issues r = []")
    case True
    then show ?thesis using Cons.IH [OF ks, of s] by simp
  next
    case False
    from Cons.IH [OF ks, of "s \<and> \<not> list_ex (rank_le fl) (issues r)"]
    obtain out where
      "print_results fm fl vl (s \<and> \<not> list_ex (rank_le fl) (issues r)) rs
         = (out, Inr ((s \<and> \<not> list_ex (rank_le fl) (issues r))
                      \<and> \<not> list_ex (\<lambda>r. list_ex (rank_le fl) (issues r)) rs))"
      by blast
    with False show ?thesis
      using print_issues_known [OF k, of fm fl vl s] by simp
  qed
qed

lemma print_results_known:
  "list_all (\<lambda>r. list_all known_severity (issues r)) rs \<Longrightarrow>
   snd (print_results fm fl vl s rs)
     = Inr (s \<and> \<not> list_ex (\<lambda>r. list_ex (rank_le fl) (issues r)) rs)"
  using print_results_known_ex [of rs fm fl vl s] by auto

lemma print_results_silent:
  "list_all (\<lambda>r. issues r = []) rs \<Longrightarrow> print_results fm fl vl s rs = ([], Inr s)"
  by (induction rs) simp_all

lemma addIssue_known:
  "addIssue r l c sev t ex = Inr r' \<Longrightarrow> list_all known_severity (issues r)
   \<Longrightarrow> list_all known_severity (issues r')"
  by (auto simp: addIssue_def known_severity_def split: if_splits)

lemma addIssue_frame:
  "addIssue r l c sev t ex = Inr r' \<Longrightarrow> res_id r' = res_id r \<and> file_path r' = file_path r"
  by (auto simp: addIssue_def split: if_splits)

lemma process_issue_known:
  "process_issue outcome cur r issue = Inr (cur', r') \<Longrightarrow> list_all known_severity (issues r)
   \<Longrightarrow> list_all known_severity (issues r')"
  by (auto simp: process_issue_def split: sum.splits prod.splits if_splits dest: addIssue_known)

lemma process_issue_frame:
  "process_issue outcome cur r issue = Inr (cur', r') \<Longrightarrow> res_id r' = res_id r \<and> file_path r' = file_path r"
  by (auto simp: process_issue_def split: sum.splits prod.splits if_splits dest: addIssue_frame)

lemma process_issues_known:
  "process_issues outcome cur r xs = Inr (cur', r') \<Longrightarrow> list_all known_severity (issues r)
   \<Longrightarrow> list_all known_severity (issues r')"
  by (induction xs arbitrary: cur r)
     (auto split: sum.splits prod.splits dest: process_issue_known)

lemma process_issues_frame:
  "process_issues outcome cur r xs = Inr (cur', r') \<Longrightarrow> res_id r' = res_id r \<and> file_path r' = file_path r"
  by (induction xs arbitrary: cur r)
     (auto split: sum.splits prod.splits dest: process_issue_frame)

lemma Result_init_issues: "Result_init fs path = Inr r \<Longrightarrow> issues r = [] \<and> file_path r = path"
  by (auto simp: Result_init_def split: load.splits sum.splits exn.splits)

lemma process_outcome_known:
  "process_outcome fs ign outcome = Inr (ign', r) \<Longrightarrow> list_all known_severity (issues r)"
  by (auto simp: process_outcome_def split: sum.splits prod.splits option.splits
           dest!: Result_init_issues dest: process_issues_known)

lemma process_outcomes_known:
  "process_outcomes fs ign rs outcomes = Inr (ign', rs')
   \<Longrightarrow> list_all (\<lambda>r. list_all known_severity (issues r)) rs
   \<Longrightarrow> list_all (\<lambda>r. list_all known_severity (issues r)) rs'"
  by (induction outcomes arbitrary: ign rs)
     (auto split: sum.splits prod.splits dest: process_outcome_known)

section \<open>The verdict of a run\<close>

text \<open>
  C1, as the code has it. The verdict loop is reached only by a run whose walk over the
  report came to its end; a run that stops in the walk prints no verdict. For a run that
  reaches the verdict loop with the list \<open>results\<close>: the flag
  \<^verbatim>\<open>success\<close> after the loop is false exactly when some issue kept in some result has a
  level at most the fail level. When it is false the last line printed is the failure
  summary and the run ends with \<^verbatim>\<open>sys.exit(1)\<close>; when it is true the last line is
  \<^verbatim>\<open>All well\<close> (between the formatter's colour codes, which are empty without
  \<^verbatim>\<open>--colorize\<close>) and the script returns, exit status 0. When no result holds an issue,
  which includes the report without outcomes, that line is the whole output.
\<close>

theorem verdict_of_run:
  assumes "check_options opts args = Inr (report, fl, vl)"
    and "load_ignored_issues opts fs = Inr ign"
    and "ET_parse fs report = Loaded root"
    and "process_outcomes fs ign [] (outcomes_of root) = Inr (ign', results)"
    and "fm = (if colorize opts then ColorFormatter else Formatter)"
    and "failing = list_ex (\<lambda>r. list_ex (rank_le fl) (issues r)) results"
  shows "snd (print_results fm fl vl True results) = Inr (\<not> failing)
         \<and> main opts args fs
             = (fst (print_results fm fl vl True results)
                  @ [if failing then ERROR fm @ ''There were errors during validation'' @ RESET fm
                     else OK fm @ ''All well'' @ RESET fm],
                if failing then SysExit 1 else Returned)
         \<and> exit_status (snd (main opts args fs)) = (if failing then 1 else 0)
         \<and> (list_all (\<lambda>r. issues r = []) results \<longrightarrow>
               \<not> failing \<and> main opts args fs = ([OK fm @ ''All well'' @ RESET fm], Returned))
         \<and> (\<not> colorize opts \<longrightarrow> OK fm @ ''All well'' @ RESET fm = ''All well'')"
proof -
  have known: "list_all (\<lambda>r. list_all known_severity (issues r)) results"
    using process_outcomes_known [OF assms(4)] by simp
  have flag: "snd (print_results fm fl vl True results) = Inr (\<not> failing)"
    using print_results_known [OF known, of fm fl vl True] assms(6) by simp
  have run: "main opts args fs = verdict fm fl vl results"
    using assms(1-5) by (simp add: main_def)
  have m: "main opts args fs
             = (fst (print_results fm fl vl True results)
                  @ [if failing then ERROR fm @ ''There were errors during validation'' @ RESET fm
                     else OK fm @ ''All well'' @ RESET fm],
                if failing then SysExit 1 else Returned)"
    using flag by (cases "print_results fm fl vl True results") (simp add: run verdict_def)
  have silent: "list_all (\<lambda>r. issues r = []) results \<longrightarrow>
               \<not> failing \<and> main opts args fs = ([OK fm @ ''All well'' @ RESET fm], Returned)"
  proof
    assume e: "list_all (\<lambda>r. issues r = []) results"
    from print_results_silent [OF e, of fm fl vl True] flag have "\<not> failing" by simp
    with print_results_silent [OF e, of fm fl vl True] m
    show "\<not> failing \<and> main opts args fs = ([OK fm @ ''All well'' @ RESET fm], Returned)" by simp
  qed
  have plain: "\<not> colorize opts \<longrightarrow> OK fm @ ''All well'' @ RESET fm = ''All well''"
    using assms(5) by (simp add: Formatter_def)
  from flag m silent plain show ?thesis by simp
qed


theorem verdict_of_run_witness:
  "main ex_options [''report.xml''] (ex_files ex_report_error (Loaded YamlOther))
     = ([''== a.xml (a)'',
         ''  -  error at Patient.name (?, ?):'' @ [CHR 0x0A] @ ''     Bad name'',
         [],
         ''There were errors during validation''], SysExit 1)
   \<and> main ex_options [''report.xml''] (ex_files (ex_bundle []) (Loaded YamlOther))
     = ([''All well''], Returned)"
proof -
  let ?fs = "ex_files ex_report_error (Loaded YamlOther)"
  let ?po = "process_outcomes ?fs [] [] (outcomes_of ex_report_error)"
  have a: "check_options ex_options [''report.xml''] = Inr (''report.xml'', 1, 3)" by code_simp
  have b: "load_ignored_issues ex_options ?fs = Inr []" by code_simp
  have c: "ET_parse ?fs ''report.xml'' = Loaded ex_report_error" by code_simp
  have d: "?po = Inr (fst (projr ?po), snd (projr ?po))" by code_simp
  have e: "fst (print_results Formatter 1 3 True (snd (projr ?po)))
             = [''== a.xml (a)'',
                ''  -  error at Patient.name (?, ?):'' @ [CHR 0x0A] @ ''     Bad name'', []]"
    by code_simp
  have f: "list_ex (\<lambda>r. list_ex (rank_le 1) (issues r)) (snd (projr ?po))" by code_simp
  have g: "\<not> colorize ex_options" by code_simp
  have first: "main ex_options [''report.xml''] ?fs
     = ([''== a.xml (a)'',
         ''  -  error at Patient.name (?, ?):'' @ [CHR 0x0A] @ ''     Bad name'',
         [],
         ''There were errors during validation''], SysExit 1)"
    using verdict_of_run [OF a b c d refl refl] e f g by (simp add: Formatter_def)
  let ?fs' = "ex_files (ex_bundle []) (Loaded YamlOther)"
  have b': "load_ignored_issues ex_options ?fs' = Inr []" by code_simp
  have c': "ET_parse ?fs' ''report.xml'' = Loaded (ex_bundle [])" by code_simp
  have d': "process_outcomes ?fs' [] [] (outcomes_of (ex_bundle [])) = Inr ([], [])" by code_simp
  have second: "main ex_options [''report.xml''] ?fs' = ([''All well''], Returned)"
    using verdict_of_run [OF a b' c' d' refl refl] g by (simp add: Formatter_def)
  from first second show ?thesis by simp
qed


text \<open>
  C1, the claim as stated fails: a report with one outcome that has no issue, and a rule
  for its resource. No issue survives in any result, yet the run stops in the walk at the
  rule that no issue matched: it exits with status 1 and does not print \<^verbatim>\<open>All well\<close>.
\<close>

theorem no_issue_no_verdict_counterexample:
  "findall_issue (ex_outcome ''a.xml'' []) = []
   \<and> main ex_options [''report.xml'']
        (ex_files (ex_outcome ''a.xml'' []) (Loaded (YamlDict (ex_rules_a [ex_rule ''Bad'']))))
       = ([''An ignored issue was provided for a/Patient.name, but the issue didn't occur''],
          SysExit 1)
   \<and> ''All well'' \<notin> set (fst (main ex_options [''report.xml'']
        (ex_files (ex_outcome ''a.xml'' []) (Loaded (YamlDict (ex_rules_a [ex_rule ''Bad'']))))))
   \<and> exit_status (snd (main ex_options [''report.xml'']
        (ex_files (ex_outcome ''a.xml'' []) (Loaded (YamlDict (ex_rules_a [ex_rule ''Bad'']))))))
       = 1"
  by code_simp

section \<open>Where a run stops\<close>

text \<open>
  The two loops stop at the first outcome, and at the first issue, that exits or raises:
  what comes after it in the report is not looked at.
\<close>

lemma process_outcomes_append:
  "process_outcomes fs ign rs (pre @ xs) =
     (case process_outcomes fs ign rs pre of
        Inl a \<Rightarrow> Inl a
      | Inr (ign1, rs1) \<Rightarrow> process_outcomes fs ign1 rs1 xs)"
  by (induction pre arbitrary: ign rs) (auto split: sum.splits)

lemma process_issues_append:
  "process_issues outcome cur r (pre @ xs) =
     (case process_issues outcome cur r pre of
        Inl a \<Rightarrow> Inl a
      | Inr (cur1, r1) \<Rightarrow> process_issues outcome cur1 r1 xs)"
  by (induction pre arbitrary: cur r) (auto split: sum.splits)

lemma check_processed_find:
  "check_processed rid cur =
     (case List.find (\<lambda>(ex, rules). list_ex (\<lambda>k. processed k = None) rules) cur of
        None \<Rightarrow> None
      | Some (ex, rules) \<Rightarrow> Some (Exit1 (stale_line rid ex)))"
  by (induction cur) auto

lemma main_abort_at:
  assumes "check_options opts args = Inr (report, fl, vl)"
    and "load_ignored_issues opts fs = Inr ign"
    and "ET_parse fs report = Loaded root"
    and "outcomes_of root = pre @ outcome # rest"
    and "process_outcomes fs ign [] pre = Inr (ign1, rs1)"
    and "process_outcome fs ign1 outcome = Inl a"
  shows "main opts args fs = abort_result a"
  using assms by (simp add: main_def process_outcomes_append)

lemma process_outcome_abort_at:
  assumes "file_name_of outcome = Inr path"
    and "Result_init fs path = Inr result"
    and "findall_issue outcome = ipre @ issue # irest"
    and "process_issues outcome (lookup_ignored ign1 (res_id result)) result ipre = Inr (cur, r1)"
    and "process_issue outcome cur r1 issue = Inl a"
  shows "process_outcome fs ign1 outcome = Inl a"
  using assms by (simp add: process_outcome_def process_issues_append)

lemma process_issue_Exit1:
  assumes "get_text issue = Inr t" and "get_line_col issue = Inr lc"
    and "get_severity issue = Inr sev" and "get_expression issue = Inr ex"
  shows "process_issue outcome cur r issue = Inl (Exit1 l)
         \<longleftrightarrow> check_ignored outcome (res_id r) cur sev t ex = Inl (Exit1 l)"
  using assms by (cases lc) (auto simp: process_issue_def split: sum.splits)

lemma process_issue_eq:
  assumes "get_text issue = Inr t" and "get_line_col issue = Inr (l, c)"
    and "get_severity issue = Inr sev" and "get_expression issue = Inr ex"
  shows "process_issue outcome cur r issue =
           (case check_ignored outcome (res_id r) cur sev t ex of
              Inl a \<Rightarrow> Inl a
            | Inr (issue_ignored, cur') \<Rightarrow>
                if issue_ignored then Inr (cur', r)
                else (case addIssue r l c sev t ex of
                        Inl e \<Rightarrow> Inl (Raise e)
                      | Inr r' \<Rightarrow> Inr (cur', r')))"
  using assms by (simp add: process_issue_def split: sum.splits prod.splits)

section \<open>Rules that no issue matched\<close>

text \<open>
  C2, as the code has it. When the walk has come to an outcome, the issues of that outcome
  have been processed, and the rules of its resource then hold one without the key
  \<^verbatim>\<open>processed\<close>, the run prints one line, for the first expression (in the order of the
  dictionary) that has such a rule, and exits with status 1 at once. The outcomes after it
  (\<open>rest\<close>) have no part in the result: they are not scanned, and their rules are not
  reported.
\<close>

theorem stale_entry_stops_run:
  assumes "check_options opts args = Inr (report, fl, vl)"
    and "load_ignored_issues opts fs = Inr ign"
    and "ET_parse fs report = Loaded root"
    and "outcomes_of root = pre @ outcome # rest"
    and "process_outcomes fs ign [] pre = Inr (ign1, rs1)"
    and "file_name_of outcome = Inr path"
    and "Result_init fs path = Inr result"
    and "process_issues outcome (lookup_ignored ign1 (res_id result)) result (findall_issue outcome)
           = Inr (cur', result')"
    and "List.find (\<lambda>(ex, rules). list_ex (\<lambda>k. processed k = None) rules) cur' = Some (ex, rules)"
  shows "main opts args fs = ([stale_line (res_id result) ex], SysExit 1)
         \<and> exit_status (snd (main opts args fs)) = 1"
proof -
  have "check_processed (res_id result) cur' = Some (Exit1 (stale_line (res_id result) ex))"
    using assms(9) by (simp add: check_processed_find)
  then have "process_outcome fs ign1 outcome = Inl (Exit1 (stale_line (res_id result) ex))"
    using assms(6-8) by (simp add: process_outcome_def)
  from main_abort_at [OF assms(1-5) this] show ?thesis by (simp add: abort_result_def)
qed

theorem stale_entry_stops_run_witness:
  "main ex_options [''report.xml''] (ex_files ex_report_two (Loaded (YamlDict ex_two_stale)))
     = ([''An ignored issue was provided for a/Patient.name, but the issue didn't occur''], SysExit 1)"
proof -
  let ?fs = "ex_files ex_report_two (Loaded (YamlDict ex_two_stale))"
  let ?r = "\<lparr>file_path = ''a.xml'', res_id = Some ''a'', issues = []\<rparr>"
  have a: "check_options ex_options [''report.xml''] = Inr (''report.xml'', 1, 3)" by code_simp
  have b: "load_ignored_issues ex_options ?fs = Inr ex_two_stale" by code_simp
  have c: "ET_parse ?fs ''report.xml'' = Loaded ex_report_two" by code_simp
  have d: "outcomes_of ex_report_two = [] @ ex_outcome ''a.xml'' [] # [ex_outcome ''b.xml'' []]" by code_simp
  have e: "process_outcomes ?fs ex_two_stale [] [] = Inr (ex_two_stale, [])" by simp
  have f: "file_name_of (ex_outcome ''a.xml'' []) = Inr ''a.xml''" by code_simp
  have g: "Result_init ?fs ''a.xml'' = Inr ?r" by code_simp
  have h: "process_issues (ex_outcome ''a.xml'' []) (lookup_ignored ex_two_stale (res_id ?r)) ?r
             (findall_issue (ex_outcome ''a.xml'' []))
           = Inr ([(''Patient.name'', [ex_rule ''Bad''])], ?r)" by code_simp
  have i: "List.find (\<lambda>(ex, rules). list_ex (\<lambda>k. processed k = None) rules)
             [(''Patient.name'', [ex_rule ''Bad''])] = Some (''Patient.name'', [ex_rule ''Bad''])"
    by code_simp
  from stale_entry_stops_run [OF a b c d e f g h i]
  show ?thesis by (simp add: stale_line_def str_id_def)
qed


text \<open>
  C2, the claim as stated fails: a report with two outcomes, for the resources \<^verbatim>\<open>a\<close> and
  \<^verbatim>\<open>b\<close>, without issues, and one rule for each resource. Both rules are stale; the run
  prints the line for \<^verbatim>\<open>a\<close> only and exits before the outcome of \<^verbatim>\<open>b\<close> is scanned.
\<close>

theorem stale_only_first_counterexample:
  "main ex_options [''report.xml''] (ex_files ex_report_two (Loaded (YamlDict ex_two_stale)))
     = ([''An ignored issue was provided for a/Patient.name, but the issue didn't occur''], SysExit 1)
   \<and> stale_line (Some ''b'') ''Patient.id''
       \<notin> set (fst (main ex_options [''report.xml''] (ex_files ex_report_two (Loaded (YamlDict ex_two_stale)))))"
  by code_simp

section \<open>Matching rules without a reason\<close>

text \<open>
  C6, as the code has it. The test for a reason is made when the issue loop comes to the
  issue, after the four fields of the issue have been read. When the walk has come to an
  issue (the outcomes before its outcome and the issues before it went through without a
  stop, and its own fields could be read), then the issue loop stops at this issue with the
  line \<^verbatim>\<open>Issue at <id>/<expression> ignored without providing a reason\<close> (\<open>diag\<close>; the id
  is \<^verbatim>\<open>None\<close> for a resource without one) exactly when some rule under the issue's
  expression has a message that starts the issue's text and has no reason; a rule without
  a reason that does not match does not stop it. When it stops, the line is the whole
  output of the run and the exit status is 1, whatever issues and outcomes come after
  (\<open>irest\<close>, \<open>rest\<close>).
\<close>

theorem missing_reason_stops_run:
  assumes "check_options opts args = Inr (report, fl, vl)"
    and "load_ignored_issues opts fs = Inr ign"
    and "ET_parse fs report = Loaded root"
    and "outcomes_of root = pre @ outcome # rest"
    and "process_outcomes fs ign [] pre = Inr (ign1, rs1)"
    and "file_name_of outcome = Inr path"
    and "Result_init fs path = Inr result"
    and "findall_issue outcome = ipre @ issue # irest"
    and "process_issues outcome (lookup_ignored ign1 (res_id result)) result ipre = Inr (cur, r1)"
    and "get_text issue = Inr t" and "get_line_col issue = Inr lc"
    and "get_severity issue = Inr sev" and "get_expression issue = Inr ex"
    and "rules = (case map_of cur ex of None \<Rightarrow> [] | Some rs \<Rightarrow> rs)"
    and "unjustified = list_ex (\<lambda>k. rule_matches t k \<and> reason k = None) rules"
    and "diag = ''Issue at '' @ (case res_id result of None \<Rightarrow> ''None'' | Some i \<Rightarrow> i) @ ''/'' @ ex
                  @ '' ignored without providing a reason''"
  shows "(process_issue outcome cur r1 issue = Inl (Exit1 diag) \<longleftrightarrow> unjustified)
         \<and> (unjustified \<longrightarrow>
               main opts args fs = ([diag], SysExit 1)
               \<and> exit_status (snd (main opts args fs)) = 1)"
proof -
  have rid: "res_id r1 = res_id result"
    using process_issues_frame [OF assms(9)] by simp
  have diag: "no_reason_line (res_id result) ex = diag"
    using assms(16) by (simp add: no_reason_line_def str_id_def)
  have other: "Exit1 (no_reason_line (res_id result) ex) = Exit1 l \<longleftrightarrow> l = diag" for l
    using diag by auto
  have step: "process_issue outcome cur r1 issue = Inl (Exit1 diag) \<longleftrightarrow> unjustified"
    using assms(14,15) other
    by (simp add: process_issue_Exit1 [OF assms(10-13)] rid check_ignored_eq split: option.splits)
  have run: "main opts args fs = ([diag], SysExit 1)
               \<and> exit_status (snd (main opts args fs)) = 1" if u: unjustified
  proof -
    from step u have "process_issue outcome cur r1 issue = Inl (Exit1 diag)"
      by simp
    from process_outcome_abort_at [OF assms(6-9) this]
    have "process_outcome fs ign1 outcome = Inl (Exit1 diag)" .
    from main_abort_at [OF assms(1-5) this] show ?thesis by (simp add: abort_result_def)
  qed
  from step run show ?thesis by blast
qed

theorem missing_reason_stops_run_witness:
  "main ex_options [''report.xml''] (ex_files ex_report_error (Loaded (YamlDict (ex_no_reason ''Bad''))))
     = ([''Issue at a/Patient.name ignored without providing a reason''], SysExit 1)
   \<and> process_issue ex_report_error (lookup_ignored (ex_no_reason ''Wrong'') (Some ''a''))
         \<lparr>file_path = ''a.xml'', res_id = Some ''a'', issues = []\<rparr>
         (ex_issue ''error'' ''Bad name'' ''Patient.name'')
       \<noteq> Inl (Exit1 ''Issue at a/Patient.name ignored without providing a reason'')"
proof -
  let ?r = "\<lparr>file_path = ''a.xml'', res_id = Some ''a'', issues = []\<rparr>"
  let ?i = "ex_issue ''error'' ''Bad name'' ''Patient.name''"
  have a: "check_options ex_options [''report.xml''] = Inr (''report.xml'', 1, 3)" by code_simp
  have d: "outcomes_of ex_report_error = [] @ ex_report_error # []" by code_simp
  have f: "file_name_of ex_report_error = Inr ''a.xml''" by code_simp
  have h: "findall_issue ex_report_error = [] @ ?i # []" by code_simp
  have j: "get_text ?i = Inr ''Bad name''" by code_simp
  have k: "get_line_col ?i = Inr (''?'', ''?'')" by code_simp
  have l: "get_severity ?i = Inr ''error''" by code_simp
  have m: "get_expression ?i = Inr ''Patient.name''" by code_simp
  have run: "load_ignored_issues ex_options (ex_files ex_report_error (Loaded (YamlDict (ex_no_reason x))))
               = Inr (ex_no_reason x)
             \<and> ET_parse (ex_files ex_report_error (Loaded (YamlDict (ex_no_reason x)))) ''report.xml''
               = Loaded ex_report_error
             \<and> process_outcomes (ex_files ex_report_error (Loaded (YamlDict (ex_no_reason x))))
                 (ex_no_reason x) [] [] = Inr (ex_no_reason x, [])
             \<and> Result_init (ex_files ex_report_error (Loaded (YamlDict (ex_no_reason x)))) ''a.xml'' = Inr ?r
             \<and> process_issues ex_report_error (lookup_ignored (ex_no_reason x) (res_id ?r)) ?r []
               = Inr (lookup_ignored (ex_no_reason x) (Some ''a''), ?r)" for x
    by (simp add: load_ignored_issues_def ex_options_def ex_files_def Result_init_def ex_resource_def
          descendant_step_def find_first_def attrib_value_def)
  have n: "list_ex (\<lambda>k. rule_matches ''Bad name'' k \<and> reason k = None)
             (case map_of (lookup_ignored (ex_no_reason ''Bad'') (Some ''a'')) ''Patient.name'' of
                None \<Rightarrow> [] | Some rs \<Rightarrow> rs)" by code_simp
  have n': "\<not> list_ex (\<lambda>k. rule_matches ''Bad name'' k \<and> reason k = None)
             (case map_of (lookup_ignored (ex_no_reason ''Wrong'') (Some ''a'')) ''Patient.name'' of
                None \<Rightarrow> [] | Some rs \<Rightarrow> rs)" by code_simp
  note r1 = run [of "''Bad''"] and r2 = run [of "''Wrong''"]
  have first: "main ex_options [''report.xml''] (ex_files ex_report_error (Loaded (YamlDict (ex_no_reason ''Bad''))))
     = ([''Issue at a/Patient.name ignored without providing a reason''], SysExit 1)"
    using missing_reason_stops_run
      [OF a r1 [THEN conjunct1] r1 [THEN conjunct2, THEN conjunct1] d
          r1 [THEN conjunct2, THEN conjunct2, THEN conjunct1] f
          r1 [THEN conjunct2, THEN conjunct2, THEN conjunct2, THEN conjunct1] h
          r1 [THEN conjunct2, THEN conjunct2, THEN conjunct2, THEN conjunct2] j k l m refl refl refl] n
    by simp
  have second: "process_issue ex_report_error (lookup_ignored (ex_no_reason ''Wrong'') (Some ''a'')) ?r ?i
       \<noteq> Inl (Exit1 ''Issue at a/Patient.name ignored without providing a reason'')"
    using missing_reason_stops_run
      [OF a r2 [THEN conjunct1] r2 [THEN conjunct2, THEN conjunct1] d
          r2 [THEN conjunct2, THEN conjunct2, THEN conjunct1] f
          r2 [THEN conjunct2, THEN conjunct2, THEN conjunct2, THEN conjunct1] h
          r2 [THEN conjunct2, THEN conjunct2, THEN conjunct2, THEN conjunct2] j k l m refl refl refl] n'
    by simp
  from first second show ?thesis by simp
qed

text \<open>
  C6, the claim as stated fails in two runs that hold an issue whose text starts with the
  message of a rule without a reason. In the first the issue stands in the second outcome,
  and the resource of the first outcome has a rule that no issue matched: the run ends at
  the first outcome with the line for that rule. In the second the issue has no severity
  element: the run ends with \<^verbatim>\<open>AttributeError\<close> before the rules are looked at.
\<close>

theorem missing_reason_not_reached_counterexample:
  "rule_matches ''Bad name'' \<lparr>message = Some ''Bad'', reason = None, processed = None\<rparr>
   \<and> main ex_options [''report.xml'']
        (ex_files ex_report_stale_then_match (Loaded (YamlDict ex_stale_then_no_reason)))
       = ([''An ignored issue was provided for a/Patient.id, but the issue didn't occur''],
          SysExit 1)
   \<and> get_text ex_issue_no_severity = Inr ''Bad name''
   \<and> get_expression ex_issue_no_severity = Inr ''Patient.name''
   \<and> main ex_options [''report.xml'']
        (ex_files (ex_outcome ''a.xml'' [ex_issue_no_severity])
           (Loaded (YamlDict (ex_no_reason ''Bad''))))
       = ([], Uncaught AttributeError)"
  by code_simp

section \<open>Issues with an unknown severity\<close>




section \<open>The exit status\<close>

text \<open>
  Every run that passes the checks on the command line ends in one of three ways: it
  returns after the line \<^verbatim>\<open>All well\<close>, it exits with status 1, or an exception ends it.
\<close>

lemma verdict_cases:
  "(\<exists>out. verdict fm fl vl rs = (out @ [OK fm @ ''All well'' @ RESET fm], Returned))
   \<or> (\<exists>out. verdict fm fl vl rs = (out, SysExit 1))
   \<or> (\<exists>out e. verdict fm fl vl rs = (out, Uncaught e))"
  by (cases "print_results fm fl vl True rs") (auto simp: verdict_def split: sum.splits)

lemma abort_result_cases:
  "(\<exists>out. abort_result a = (out, SysExit 1)) \<or> (\<exists>out e. abort_result a = (out, Uncaught e))"
  by (cases a) (simp_all add: abort_result_def)

lemma main_after_check:
  assumes "check_options opts args = Inr (report, fl, vl)"
    and "fm = (if colorize opts then ColorFormatter else Formatter)"
  shows "(\<exists>out. main opts args fs = (out @ [OK fm @ ''All well'' @ RESET fm], Returned))
   \<or> (\<exists>out. main opts args fs = (out, SysExit 1))
   \<or> (\<exists>out e. main opts args fs = (out, Uncaught e))"
proof (cases "load_ignored_issues opts fs")
  case (Inl e)
  with assms show ?thesis by (simp add: main_def)
next
  case (Inr ign)
  show ?thesis
  proof (cases "ET_parse fs report")
    case NoFile
    with assms Inr show ?thesis by (simp add: main_def)
  next
    case Malformed
    with assms Inr show ?thesis by (simp add: main_def)
  next
    case (Loaded root)
    show ?thesis
    proof (cases "process_outcomes fs ign [] (outcomes_of root)")
      case (Inl a)
      with assms Inr Loaded abort_result_cases [of a] show ?thesis by (auto simp: main_def)
    next
      case (Inr p)
      obtain ign' results where "p = (ign', results)" by (cases p)
      with assms \<open>load_ignored_issues opts fs = Inr ign\<close> Loaded Inr
        verdict_cases [of fm fl vl results]
      show ?thesis by (simp add: main_def)
    qed
  qed
qed

lemma verdict_known:
  assumes "list_all (\<lambda>r. list_all known_severity (issues r)) results"
  shows "snd (verdict fm fl vl results)
           = (if list_ex (\<lambda>r. list_ex (rank_le fl) (issues r)) results then SysExit 1 else Returned)"
  using print_results_known [OF assms, of fm fl vl True]
  by (cases "print_results fm fl vl True results") (simp add: verdict_def)

lemma find_list_ex: "list_ex P xs \<Longrightarrow> \<exists>p. List.find P xs = Some p"
  by (induction xs) auto

text \<open>
  C8, as the code has it. \<open>fl\<close> and \<open>vl\<close> are the levels of \<^verbatim>\<open>--fail-at\<close> and
  \<^verbatim>\<open>--verbosity-level\<close>. A wrong number of arguments and a fail level above the verbosity
  level end in \<^verbatim>\<open>parser.error\<close>, whose exit status is 2, with nothing on stdout. Every
  other run ends with status 0, and then it has returned after printing \<^verbatim>\<open>All well\<close>, or
  with status 1. Kind by kind, for a command line that passes the checks: when the walk
  hands \<open>results\<close> to the verdict loop, the status is 1 if some kept issue has a level at
  most the fail level (\<^verbatim>\<open>sys.exit(1)\<close>) and 0 otherwise; when the walk comes to an outcome
  and finds, after its issues, a rule without the key \<^verbatim>\<open>processed\<close>, the run ends with
  \<^verbatim>\<open>sys.exit(1)\<close>; every other stop in the walk (a matching rule without a reason, an
  exception) gives status 1; a report that cannot be parsed ends the run with
  \<^verbatim>\<open>ParseError\<close>, status 1.
\<close>

theorem exit_status_of_run:
  assumes "issue_levels (choice_name (fail_at opts)) = Some fl"
    and "issue_levels (choice_name (verbosity_level opts)) = Some vl"
    and "fm = (if colorize opts then ColorFormatter else Formatter)"
  shows "(length args \<noteq> 1 \<or> vl < fl \<longrightarrow>
            (\<exists>msg. main opts args fs = ([], ParserError msg))
            \<and> exit_status (snd (main opts args fs)) = 2)
         \<and> (length args = 1 \<and> fl \<le> vl \<longrightarrow>
            (snd (main opts args fs) = Returned
               \<and> exit_status (snd (main opts args fs)) = 0
               \<and> (\<exists>out. fst (main opts args fs) = out @ [OK fm @ ''All well'' @ RESET fm]))
            \<or> ((snd (main opts args fs) = SysExit 1 \<or> (\<exists>e. snd (main opts args fs) = Uncaught e))
               \<and> exit_status (snd (main opts args fs)) = 1))
         \<and> (args = [report] \<and> fl \<le> vl
              \<and> load_ignored_issues opts fs = Inr ign \<and> ET_parse fs report = Loaded root
              \<and> process_outcomes fs ign [] (outcomes_of root) = Inr (ign', results) \<longrightarrow>
            snd (main opts args fs)
              = (if list_ex (\<lambda>r. list_ex (rank_le fl) (issues r)) results then SysExit 1 else Returned)
            \<and> exit_status (snd (main opts args fs))
              = (if list_ex (\<lambda>r. list_ex (rank_le fl) (issues r)) results then 1 else 0))
         \<and> (args = [report] \<and> fl \<le> vl
              \<and> load_ignored_issues opts fs = Inr ign \<and> ET_parse fs report = Loaded root
              \<and> outcomes_of root = pre @ outcome # rest
              \<and> process_outcomes fs ign [] pre = Inr (ign_a, rs_a)
              \<and> file_name_of outcome = Inr path \<and> Result_init fs path = Inr result
              \<and> process_issues outcome (lookup_ignored ign_a (res_id result)) result
                    (findall_issue outcome) = Inr (cur', result')
              \<and> list_ex (\<lambda>(ex, rules). list_ex (\<lambda>k. processed k = None) rules) cur' \<longrightarrow>
            snd (main opts args fs) = SysExit 1
            \<and> exit_status (snd (main opts args fs)) = 1)
         \<and> (args = [report] \<and> fl \<le> vl
              \<and> load_ignored_issues opts fs = Inr ign \<and> ET_parse fs report = Loaded root
              \<and> process_outcomes fs ign [] (outcomes_of root) = Inl a \<longrightarrow>
            main opts args fs = abort_result a
            \<and> exit_status (snd (main opts args fs)) = 1)
         \<and> (args = [report] \<and> fl \<le> vl
              \<and> load_ignored_issues opts fs = Inr ign \<and> ET_parse fs report = Malformed \<longrightarrow>
            main opts args fs = ([], Uncaught (ParseError report))
            \<and> exit_status (snd (main opts args fs)) = 1)"
proof -
  have chk: "check_options opts args = Inr (report, fl, vl)" if "args = [report]" "fl \<le> vl"
    using that assms(1,2) by (simp add: check_options_def)
  have bad: "(\<exists>msg. main opts args fs = ([], ParserError msg))
            \<and> exit_status (snd (main opts args fs)) = 2" if "length args \<noteq> 1 \<or> vl < fl"
    using that assms(1,2) by (auto simp: main_def check_options_def split: list.splits)
  have good: "(snd (main opts args fs) = Returned
               \<and> exit_status (snd (main opts args fs)) = 0
               \<and> (\<exists>out. fst (main opts args fs) = out @ [OK fm @ ''All well'' @ RESET fm]))
            \<or> ((snd (main opts args fs) = SysExit 1 \<or> (\<exists>e. snd (main opts args fs) = Uncaught e))
               \<and> exit_status (snd (main opts args fs)) = 1)" if "length args = 1 \<and> fl \<le> vl"
  proof -
    from that obtain r where "args = [r]" by (cases args) auto
    with that assms(1,2) have "check_options opts args = Inr (r, fl, vl)"
      by (simp add: check_options_def)
    from main_after_check [OF this assms(3), of fs] show ?thesis by auto
  qed
  have verd: "snd (main opts args fs)
              = (if list_ex (\<lambda>r. list_ex (rank_le fl) (issues r)) results then SysExit 1 else Returned)
            \<and> exit_status (snd (main opts args fs))
              = (if list_ex (\<lambda>r. list_ex (rank_le fl) (issues r)) results then 1 else 0)"
    if h: "args = [report]" "fl \<le> vl" "load_ignored_issues opts fs = Inr ign"
      "ET_parse fs report = Loaded root"
      "process_outcomes fs ign [] (outcomes_of root) = Inr (ign', results)"
  proof -
    have known: "list_all (\<lambda>r. list_all known_severity (issues r)) results"
      using process_outcomes_known [OF h(5)] by simp
    have "main opts args fs = verdict fm fl vl results"
      using chk [OF h(1,2)] h(3-5) assms(3) by (simp add: main_def)
    with verdict_known [OF known, of fm fl vl] show ?thesis by simp
  qed
  have stale: "snd (main opts args fs) = SysExit 1 \<and> exit_status (snd (main opts args fs)) = 1"
    if h: "args = [report]" "fl \<le> vl" "load_ignored_issues opts fs = Inr ign"
      "ET_parse fs report = Loaded root" "outcomes_of root = pre @ outcome # rest"
      "process_outcomes fs ign [] pre = Inr (ign_a, rs_a)"
      "file_name_of outcome = Inr path" "Result_init fs path = Inr result"
      "process_issues outcome (lookup_ignored ign_a (res_id result)) result
         (findall_issue outcome) = Inr (cur', result')"
      "list_ex (\<lambda>(ex, rules). list_ex (\<lambda>k. processed k = None) rules) cur'"
  proof -
    from find_list_ex [OF h(10)]
    obtain p where "List.find (\<lambda>(ex, rules). list_ex (\<lambda>k. processed k = None) rules) cur' = Some p"
      by blast
    then obtain l where "check_processed (res_id result) cur' = Some (Exit1 l)"
      by (cases p) (simp add: check_processed_find)
    with h(7-9) have "process_outcome fs ign_a outcome = Inl (Exit1 l)"
      by (simp add: process_outcome_def)
    from main_abort_at [OF chk [OF h(1,2)] h(3-6) this] show ?thesis
      by (simp add: abort_result_def)
  qed
  have ab: "main opts args fs = abort_result a \<and> exit_status (snd (main opts args fs)) = 1"
    if h: "args = [report]" "fl \<le> vl" "load_ignored_issues opts fs = Inr ign"
      "ET_parse fs report = Loaded root"
      "process_outcomes fs ign [] (outcomes_of root) = Inl a"
  proof -
    have "main opts args fs = abort_result a"
      using chk [OF h(1,2)] h(3-5) by (simp add: main_def)
    then show ?thesis by (cases a) (simp_all add: abort_result_def)
  qed
  have parse: "main opts args fs = ([], Uncaught (ParseError report))
            \<and> exit_status (snd (main opts args fs)) = 1"
    if h: "args = [report]" "fl \<le> vl" "load_ignored_issues opts fs = Inr ign"
      "ET_parse fs report = Malformed"
    using chk [OF h(1,2)] h(3,4) by (simp add: main_def)
  show ?thesis
    apply (intro conjI)
    subgoal using bad by blast
    subgoal using good by blast
    subgoal using verd by blast
    subgoal using stale by blast
    subgoal using ab by blast
    subgoal using parse by blast
    done
qed


theorem exit_status_of_run_witness:
  "exit_status (snd (main ex_options [] (ex_files ex_report_error (Loaded YamlOther)))) = 2
   \<and> exit_status (snd (main ex_options [''report.xml''] (ex_files ex_report_error (Loaded YamlOther)))) = 1
   \<and> exit_status (snd (main ex_options [''report.xml''] (ex_files (ex_bundle []) (Loaded YamlOther)))) = 0
   \<and> exit_status (snd (main ex_options [''report.xml'']
        (ex_files (ex_outcome ''a.xml'' []) (Loaded (YamlDict (ex_rules_a [ex_rule ''Bad'']))))))
       = 1
   \<and> exit_status (snd (main ex_options [''report.xml''] (ex_files ex_report_bogus (Loaded YamlOther)))) = 1
   \<and> exit_status (snd (main ex_options [''report.xml'']
        ((ex_files ex_report_error (Loaded YamlOther))\<lparr>ET_parse := \<lambda>p. Malformed\<rparr>))) = 1"
proof -
  have a: "issue_levels (choice_name (fail_at ex_options)) = Some 1" by code_simp
  have b: "issue_levels (choice_name (verbosity_level ex_options)) = Some 3" by code_simp
  note inst = exit_status_of_run [OF a b refl]
  have one: "exit_status (snd (main ex_options [] (ex_files ex_report_error (Loaded YamlOther)))) = 2"
    using inst [where args = "[]" and fs = "ex_files ex_report_error (Loaded YamlOther)"] by simp
  let ?fs = "ex_files ex_report_error (Loaded YamlOther)"
  let ?po = "process_outcomes ?fs [] [] (outcomes_of ex_report_error)"
  have c: "load_ignored_issues ex_options ?fs = Inr []" by code_simp
  have d: "ET_parse ?fs ''report.xml'' = Loaded ex_report_error" by code_simp
  have e: "?po = Inr (fst (projr ?po), snd (projr ?po))" by code_simp
  have f: "list_ex (\<lambda>r. list_ex (rank_le 1) (issues r)) (snd (projr ?po))" by code_simp
  have two: "exit_status (snd (main ex_options [''report.xml''] ?fs)) = 1"
    using inst [where args = "[''report.xml'']" and fs = ?fs and report = "''report.xml''"
        and ign = "[]" and root = ex_report_error and ign' = "fst (projr ?po)"
        and results = "snd (projr ?po)"] c d e f
    by simp
  let ?fs3 = "ex_files (ex_bundle []) (Loaded YamlOther)"
  have c3: "load_ignored_issues ex_options ?fs3 = Inr []" by code_simp
  have d3: "ET_parse ?fs3 ''report.xml'' = Loaded (ex_bundle [])" by code_simp
  have e3: "process_outcomes ?fs3 [] [] (outcomes_of (ex_bundle [])) = Inr ([], [])" by code_simp
  have three: "exit_status (snd (main ex_options [''report.xml''] ?fs3)) = 0"
    using inst [where args = "[''report.xml'']" and fs = ?fs3 and report = "''report.xml''"
        and ign = "[]" and root = "ex_bundle []" and ign' = "[]" and results = "[]"] c3 d3 e3
    by simp
  let ?ign = "ex_rules_a [ex_rule ''Bad'']"
  let ?fs4 = "ex_files (ex_outcome ''a.xml'' []) (Loaded (YamlDict ?ign))"
  have c4: "load_ignored_issues ex_options ?fs4 = Inr ?ign" by code_simp
  have d4: "ET_parse ?fs4 ''report.xml'' = Loaded (ex_outcome ''a.xml'' [])" by code_simp
  have e4: "outcomes_of (ex_outcome ''a.xml'' []) = [] @ ex_outcome ''a.xml'' [] # []" by code_simp
  have f4: "process_outcomes ?fs4 ?ign [] [] = Inr (?ign, [])" by simp
  have g4: "file_name_of (ex_outcome ''a.xml'' []) = Inr ''a.xml''" by code_simp
  have h4: "Result_init ?fs4 ''a.xml'' = Inr ex_result_a" by code_simp
  have i4: "process_issues (ex_outcome ''a.xml'' []) (lookup_ignored ?ign (res_id ex_result_a))
              ex_result_a (findall_issue (ex_outcome ''a.xml'' []))
            = Inr ([(''Patient.name'', [ex_rule ''Bad''])], ex_result_a)" by code_simp
  have j4: "list_ex (\<lambda>(ex, rules). list_ex (\<lambda>k. processed k = None) rules)
              [(''Patient.name'', [ex_rule ''Bad''])]" by code_simp
  have four: "exit_status (snd (main ex_options [''report.xml''] ?fs4)) = 1"
    using inst [where args = "[''report.xml'']" and fs = ?fs4 and report = "''report.xml''"
        and ign = ?ign and root = "ex_outcome ''a.xml'' []" and pre = "[]"
        and outcome = "ex_outcome ''a.xml'' []" and rest = "[]" and ign_a = ?ign and rs_a = "[]"
        and path = "''a.xml''" and result = ex_result_a
        and cur' = "[(''Patient.name'', [ex_rule ''Bad''])]" and result' = ex_result_a]
      c4 d4 e4 f4 g4 h4 i4 j4
    by simp
  let ?fs5 = "ex_files ex_report_bogus (Loaded YamlOther)"
  have c5: "load_ignored_issues ex_options ?fs5 = Inr []" by code_simp
  have d5: "ET_parse ?fs5 ''report.xml'' = Loaded ex_report_bogus" by code_simp
  have e5: "process_outcomes ?fs5 [] [] (outcomes_of ex_report_bogus)
              = Inl (Raise (Exception ''Unknown severity 'bogus' when validating file a.xml''))"
    by code_simp
  have five: "exit_status (snd (main ex_options [''report.xml''] ?fs5)) = 1"
    using inst [where args = "[''report.xml'']" and fs = ?fs5 and report = "''report.xml''"
        and ign = "[]" and root = ex_report_bogus
        and a = "Raise (Exception ''Unknown severity 'bogus' when validating file a.xml'')"]
      c5 d5 e5
    by (simp add: abort_result_def)
  let ?fs6 = "(ex_files ex_report_error (Loaded YamlOther))\<lparr>ET_parse := \<lambda>p. Malformed\<rparr>"
  have c6: "load_ignored_issues ex_options ?fs6 = Inr []" by code_simp
  have d6: "ET_parse ?fs6 ''report.xml'' = Malformed" by simp
  have six: "exit_status (snd (main ex_options [''report.xml''] ?fs6)) = 1"
    using inst [where args = "[''report.xml'']" and fs = ?fs6 and report = "''report.xml''"
        and ign = "[]"] c6 d6
    by simp
  from one two three four five six show ?thesis by simp
qed

text \<open>
  C8, the claim as stated fails: a run without an argument, and a run with
  \<^verbatim>\<open>--fail-at information --verbosity-level warning\<close>, end with status 2.
\<close>

theorem parser_error_status_counterexample:
  "exit_status (snd (main ex_options [] (ex_files ex_report_error (Loaded YamlOther)))) = 2
   \<and> exit_status (snd (main (ex_options\<lparr>fail_at := ChInformation, verbosity_level := ChWarning\<rparr>)
        [''report.xml''] (ex_files ex_report_error (Loaded YamlOther)))) = 2"
  by code_simp

section \<open>The All OK issue\<close>

lemma update_same: "map_of al k = Some v \<Longrightarrow> AList.update k v al = al"
  by (induction al) auto

text \<open>
  The two branches of the test that decides \<^verbatim>\<open>issue_ignored\<close>. The comment at the
  \<^verbatim>\<open>elif\<close> says of the validator's \<^verbatim>\<open>All OK\<close> issue that "we should ignore" it. For an
  issue whose fields could be read: when its expression is no key of the rules of the
  resource, the issue is dropped, with the rules and the result unchanged, exactly when it
  has the severity \<^verbatim>\<open>information\<close>, the text \<^verbatim>\<open>All OK\<close> and is the only issue of its
  outcome; every other issue goes to \<^verbatim>\<open>addIssue\<close>. When its expression is a key, the
  \<^verbatim>\<open>elif\<close> is not reached and the shape of the issue plays no part: the \<^verbatim>\<open>All OK\<close> issue
  is matched against the rules like any issue, marks the rules it matches, and goes to
  \<^verbatim>\<open>addIssue\<close> when none matches. In this second case the code does not do what its
  comment says.
\<close>

theorem all_ok_marker:
  assumes "get_text issue = Inr t" and "get_line_col issue = Inr (l, c)"
    and "get_severity issue = Inr sev" and "get_expression issue = Inr ex"
    and "marker = (sev = ''information'' \<and> t = ''All OK'' \<and> length (findall_issue outcome) = 1)"
  shows "(map_of cur ex = None \<longrightarrow>
            process_issue outcome cur r issue
              = (if marker then Inr (cur, r)
                 else (case addIssue r l c sev t ex of
                         Inl e \<Rightarrow> Inl (Raise e)
                       | Inr r' \<Rightarrow> Inr (cur, r'))))
         \<and> (map_of cur ex = Some rules \<longrightarrow>
            process_issue outcome cur r issue
              = (if list_ex (\<lambda>k. rule_matches t k \<and> reason k = None) rules
                 then Inl (Exit1 (no_reason_line (res_id r) ex))
                 else if list_ex (rule_matches t) rules
                 then Inr (AList.update ex
                             (map (\<lambda>k. if rule_matches t k then k\<lparr>processed := Some True\<rparr> else k) rules)
                             cur, r)
                 else (case addIssue r l c sev t ex of
                         Inl e \<Rightarrow> Inl (Raise e)
                       | Inr r' \<Rightarrow> Inr (cur, r'))))"
proof -
  have same: "map (\<lambda>k. if rule_matches t k then k\<lparr>processed := Some True\<rparr> else k) rules = rules"
    if "\<not> list_ex (rule_matches t) rules"
    using that by (induction rules) auto
  show ?thesis
    using assms(5) same
    by (auto simp: process_issue_eq [OF assms(1-4)] check_ignored_eq update_same split: sum.splits)
qed


theorem all_ok_marker_witness:
  "process_issue (ex_outcome ''a.xml'' [ex_all_ok]) [] ex_result_a ex_all_ok = Inr ([], ex_result_a)
   \<and> process_issue (ex_outcome ''a.xml'' [ex_all_ok, ex_all_ok]) [] ex_result_a ex_all_ok
       = Inr ([], ex_result_a\<lparr>issues := [ex_all_ok_kept]\<rparr>)
   \<and> process_issue (ex_outcome ''a.xml'' [ex_all_ok]) [([], [ex_rule ''All''])] ex_result_a ex_all_ok
       = Inr ([([], [(ex_rule ''All'')\<lparr>processed := Some True\<rparr>])], ex_result_a)"
proof -
  have a: "get_text ex_all_ok = Inr ''All OK''" by code_simp
  have b: "get_line_col ex_all_ok = Inr (''?'', ''?'')" by code_simp
  have c: "get_severity ex_all_ok = Inr ''information''" by code_simp
  have d: "get_expression ex_all_ok = Inr []" by code_simp
  have n1: "length (findall_issue (ex_outcome ''a.xml'' [ex_all_ok])) = 1" by code_simp
  have n2: "length (findall_issue (ex_outcome ''a.xml'' [ex_all_ok, ex_all_ok])) = 2" by code_simp
  have e: "map_of ([] :: curr_ignored) [] = None" by simp
  have f: "map_of [([], [ex_rule ''All''])] ([] :: string) = Some [ex_rule ''All'']" by simp
  have g: "addIssue ex_result_a ''?'' ''?'' ''information'' ''All OK'' []
             = Inr (ex_result_a\<lparr>issues := [ex_all_ok_kept]\<rparr>)" by code_simp
  have h: "\<not> list_ex (\<lambda>k. rule_matches ''All OK'' k \<and> reason k = None) [ex_rule ''All'']" by code_simp
  have i: "list_ex (rule_matches ''All OK'') [ex_rule ''All'']" by code_simp
  have j: "map (\<lambda>k. if rule_matches ''All OK'' k then k\<lparr>processed := Some True\<rparr> else k) [ex_rule ''All'']
             = [(ex_rule ''All'')\<lparr>processed := Some True\<rparr>]" by code_simp
  from all_ok_marker [OF a b c d refl, where outcome = "ex_outcome ''a.xml'' [ex_all_ok]"
         and cur = "[]" and r = ex_result_a] e n1
  have one: "process_issue (ex_outcome ''a.xml'' [ex_all_ok]) [] ex_result_a ex_all_ok = Inr ([], ex_result_a)"
    by simp
  from all_ok_marker [OF a b c d refl, where outcome = "ex_outcome ''a.xml'' [ex_all_ok, ex_all_ok]"
         and cur = "[]" and r = ex_result_a] e n2 g
  have two: "process_issue (ex_outcome ''a.xml'' [ex_all_ok, ex_all_ok]) [] ex_result_a ex_all_ok
       = Inr ([], ex_result_a\<lparr>issues := [ex_all_ok_kept]\<rparr>)"
    by simp
  from all_ok_marker [OF a b c d refl, where outcome = "ex_outcome ''a.xml'' [ex_all_ok]"
         and cur = "[([], [ex_rule ''All''])]" and rules = "[ex_rule ''All'']" and r = ex_result_a] f h i j
  have three: "process_issue (ex_outcome ''a.xml'' [ex_all_ok]) [([], [ex_rule ''All''])] ex_result_a ex_all_ok
       = Inr ([([], [(ex_rule ''All'')\<lparr>processed := Some True\<rparr>])], ex_result_a)"
    by simp
  from one two three show ?thesis by simp
qed

text \<open>
  The same at the issue loop: an outcome whose only issue is the \<^verbatim>\<open>All OK\<close> issue
  (severity \<^verbatim>\<open>information\<close>, no expression), for a resource with a rule under the empty
  expression. With the message \<^verbatim>\<open>All\<close> the issue consumes the rule; with the message
  \<^verbatim>\<open>Bad\<close> the issue is added to the result.
\<close>

theorem all_ok_marker_counterexample:
  "length (findall_issue (ex_outcome ''a.xml'' [ex_all_ok])) = 1
   \<and> get_severity ex_all_ok = Inr ''information''
   \<and> get_text ex_all_ok = Inr ''All OK''
   \<and> process_issue (ex_outcome ''a.xml'' [ex_all_ok]) [([], [ex_rule ''All''])] ex_result_a ex_all_ok
       = Inr ([([], [(ex_rule ''All'')\<lparr>processed := Some True\<rparr>])], ex_result_a)
   \<and> process_issue (ex_outcome ''a.xml'' [ex_all_ok]) [([], [ex_rule ''Bad''])] ex_result_a ex_all_ok
       = Inr ([([], [ex_rule ''Bad''])], ex_result_a\<lparr>issues := [ex_all_ok_kept]\<rparr>)"
  by code_simp

text \<open>
  C4. The claim is what the comment at the \<^verbatim>\<open>elif\<close> says: the single \<^verbatim>\<open>All OK\<close> issue
  of an outcome is left out before any matching and never stands among the issues of the
  result. The code misses it when the expression of the issue is a key of the rules of the
  resource. The report has one outcome, for the resource \<^verbatim>\<open>a\<close>, whose only issue is the
  \<^verbatim>\<open>All OK\<close> issue; the rules of \<^verbatim>\<open>a\<close> have the empty expression as a key, with no rule
  under it. The issue is kept and printed, and with \<^verbatim>\<open>--fail-at information\<close> the run
  fails. Without the rules the same report gives \<^verbatim>\<open>All well\<close>.
\<close>

theorem all_ok_kept_fails_run:
  "length (findall_issue (ex_outcome ''a.xml'' [ex_all_ok])) = 1
   \<and> get_severity ex_all_ok = Inr ''information''
   \<and> get_text ex_all_ok = Inr ''All OK''
   \<and> main (ex_options\<lparr>fail_at := ChInformation\<rparr>) [''report.xml'']
        (ex_files (ex_outcome ''a.xml'' [ex_all_ok]) (Loaded (YamlDict ex_empty_key)))
       = ([''== a.xml (a)'',
           ''  -  information at  (?, ?):'' @ [CHR 0x0A] @ ''     All OK'',
           [],
           ''There were errors during validation''], SysExit 1)
   \<and> main (ex_options\<lparr>fail_at := ChInformation\<rparr>) [''report.xml'']
        (ex_files (ex_outcome ''a.xml'' [ex_all_ok]) (Loaded YamlOther))
       = ([''All well''], Returned)"
  by code_simp

section \<open>Rules without a message\<close>

text \<open>
  A rule without the key \<^verbatim>\<open>message\<close> matches no text, so the issue loop never writes its
  key \<^verbatim>\<open>processed\<close>. While the rules of a resource hold such a rule that has no key
  \<^verbatim>\<open>processed\<close> of its own, no outcome of that resource gets past the check after its
  issues; outcomes of other resources leave the rules as they are.
\<close>

lemma no_message_no_match: "message k = None \<Longrightarrow> \<not> rule_matches t k"
  by (simp add: rule_matches_def)

lemma mark_keeps:
  "list_ex (\<lambda>k. message k = None \<and> processed k = None) rules \<Longrightarrow>
   list_ex (\<lambda>k. message k = None \<and> processed k = None)
     (map (\<lambda>k. if rule_matches t k then k\<lparr>processed := Some True\<rparr> else k) rules)"
  by (induction rules) (auto simp: no_message_no_match)

lemma update_keeps:
  "stale_forever cur \<Longrightarrow> map_of cur ex = Some rules \<Longrightarrow>
   stale_forever (AList.update ex
     (map (\<lambda>k. if rule_matches t k then k\<lparr>processed := Some True\<rparr> else k) rules) cur)"
proof (induction cur)
  case Nil
  then show ?case by simp
next
  case (Cons p cur)
  obtain e rs where p: "p = (e, rs)" by (cases p)
  show ?case
  proof (cases "e = ex")
    case True
    with Cons.prems p mark_keeps [of rs t] show ?thesis
      by (auto simp: stale_forever_def)
  next
    case False
    with Cons p show ?thesis by (auto simp: stale_forever_def)
  qed
qed

lemma check_ignored_keeps:
  "check_ignored outcome rid cur sev t ex = Inr (b, cur') \<Longrightarrow> stale_forever cur
   \<Longrightarrow> stale_forever cur'"
  by (auto simp: check_ignored_eq update_keeps split: option.splits if_splits)

lemma process_issue_keeps:
  "process_issue outcome cur r issue = Inr (cur', r') \<Longrightarrow> stale_forever cur
   \<Longrightarrow> stale_forever cur'"
  by (auto simp: process_issue_def split: sum.splits prod.splits if_splits
           dest: check_ignored_keeps)

lemma process_issues_keeps:
  "process_issues outcome cur r xs = Inr (cur', r') \<Longrightarrow> stale_forever cur
   \<Longrightarrow> stale_forever cur'"
  by (induction xs arbitrary: cur r)
     (auto split: sum.splits prod.splits dest: process_issue_keeps)

lemma stale_forever_found:
  "stale_forever cur \<Longrightarrow>
   \<exists>ex rules. List.find (\<lambda>(ex, rules). list_ex (\<lambda>k. processed k = None) rules) cur = Some (ex, rules)"
proof (induction cur)
  case Nil
  then show ?case by (simp add: stale_forever_def)
next
  case (Cons p cur)
  obtain e rs where p: "p = (e, rs)" by (cases p)
  show ?case
  proof (cases "list_ex (\<lambda>k. processed k = None) rs")
    case True
    with p show ?thesis by simp
  next
    case False
    then have "\<not> list_ex (\<lambda>k. message k = None \<and> processed k = None) rs"
      by (auto simp: list_ex_iff)
    with Cons p False show ?thesis by (simp add: stale_forever_def)
  qed
qed

lemma process_outcome_parts:
  "process_outcome fs ign outcome = Inr (ign', r) \<Longrightarrow>
   \<exists>path result cur'.
     file_name_of outcome = Inr path \<and> Result_init fs path = Inr result
     \<and> process_issues outcome (lookup_ignored ign (res_id result)) result (findall_issue outcome)
         = Inr (cur', r)
     \<and> check_processed (res_id result) cur' = None
     \<and> ign' = store_ignored ign (res_id result) cur'"
  by (auto simp: process_outcome_def split: sum.splits prod.splits option.splits)

lemma lookup_store_other:
  "rid' \<noteq> rid \<Longrightarrow> lookup_ignored (store_ignored ign rid' cur') rid = lookup_ignored ign rid"
  by (auto simp: lookup_ignored_def store_ignored_def update_conv' split: option.splits)

lemma process_outcome_keeps:
  assumes "process_outcome fs ign outcome = Inr (ign', r)"
    and "stale_forever (lookup_ignored ign rid)"
  shows "stale_forever (lookup_ignored ign' rid)
         \<and> (\<forall>path result. file_name_of outcome = Inr path \<longrightarrow> Result_init fs path = Inr result
               \<longrightarrow> res_id result \<noteq> rid)"
proof -
  from process_outcome_parts [OF assms(1)] obtain path result cur' where
    f: "file_name_of outcome = Inr path" and i: "Result_init fs path = Inr result"
    and p: "process_issues outcome (lookup_ignored ign (res_id result)) result (findall_issue outcome)
         = Inr (cur', r)"
    and c: "check_processed (res_id result) cur' = None"
    and s: "ign' = store_ignored ign (res_id result) cur'"
    by blast
  have ne: "res_id result \<noteq> rid"
  proof
    assume "res_id result = rid"
    with p assms(2) have "stale_forever cur'" by (auto dest: process_issues_keeps)
    from stale_forever_found [OF this] c show False
      by (auto simp: check_processed_find)
  qed
  with s f i show ?thesis using assms(2) by (simp add: lookup_store_other)
qed

lemma process_outcomes_keeps:
  "process_outcomes fs ign rs outcomes = Inr (ign', rs')
   \<Longrightarrow> stale_forever (lookup_ignored ign rid)
   \<Longrightarrow> stale_forever (lookup_ignored ign' rid)
       \<and> (\<forall>outcome\<in>set outcomes. \<forall>path result.
             file_name_of outcome = Inr path \<longrightarrow> Result_init fs path = Inr result
               \<longrightarrow> res_id result \<noteq> rid)"
proof (induction outcomes arbitrary: ign rs)
  case Nil
  then show ?case by simp
next
  case (Cons outcome outcomes)
  from Cons.prems(1) obtain ign1 r where
    one: "process_outcome fs ign outcome = Inr (ign1, r)"
    and more: "process_outcomes fs ign1 (rs @ [r]) outcomes = Inr (ign', rs')"
    by (auto split: sum.splits prod.splits)
  from process_outcome_keeps [OF one Cons.prems(2)] Cons.IH [OF more]
  show ?case by auto
qed


lemma match_without_message:
  "message k = None \<Longrightarrow>
   match_known_issues rid ex t (ks1 @ k # ks2) =
     (case match_known_issues rid ex t (ks1 @ ks2) of
        Inl a \<Rightarrow> Inl a
      | Inr (ign, ks') \<Rightarrow> Inr (ign, take (length ks1) ks' @ k # drop (length ks1) ks'))"
  by (simp add: match_known_issues_eq no_message_no_match)

lemma stale_forever_intro:
  "(ex, rules) \<in> set cur \<Longrightarrow> k \<in> set rules \<Longrightarrow> message k = None \<Longrightarrow> processed k = None
   \<Longrightarrow> stale_forever cur"
  by (auto simp: stale_forever_def list_ex_iff)

text \<open>
  C10, as the code has it. A rule \<open>k\<close> without a message matches no text, and the loop over
  a list of rules gives the same answer with and without it and leaves it as it was: it is
  skipped without any diagnostic. If moreover \<open>k\<close> has no key \<^verbatim>\<open>processed\<close> of its own and
  stands among the rules loaded for the resource of some outcome of the report, the walk
  does not reach the verdict: the run stops in the walk with exit status 1. When the walk
  comes to that outcome and gets through its issues, the run ends there with the line for a
  rule that no issue matched, naming the resource and the first expression (in the order of
  the dictionary) that has a rule without the key \<^verbatim>\<open>processed\<close>.
\<close>

theorem rule_without_message:
  assumes "message k = None"
  shows "\<not> rule_matches t k
         \<and> match_known_issues rid_m ex_m t (before @ k # after) =
             (case match_known_issues rid_m ex_m t (before @ after) of
                Inl a \<Rightarrow> Inl a
              | Inr (ign, ks') \<Rightarrow> Inr (ign, take (length before) ks' @ k # drop (length before) ks'))
         \<and> (processed k = None
              \<and> check_options opts args = Inr (report, fl, vl)
              \<and> load_ignored_issues opts fs = Inr ign
              \<and> ET_parse fs report = Loaded root
              \<and> outcomes_of root = pre @ outcome # rest
              \<and> file_name_of outcome = Inr path
              \<and> Result_init fs path = Inr result
              \<and> map_of ign (res_id result) = Some (Some cur)
              \<and> (ex, rules) \<in> set cur \<and> k \<in> set rules
            \<longrightarrow> (\<exists>a. process_outcomes fs ign [] (outcomes_of root) = Inl a
                      \<and> main opts args fs = abort_result a)
                \<and> exit_status (snd (main opts args fs)) = 1
                \<and> (process_outcomes fs ign [] pre = Inr (ign_a, rs_a)
                      \<and> process_issues outcome (lookup_ignored ign_a (res_id result)) result
                            (findall_issue outcome) = Inr (cur', result')
                    \<longrightarrow> (\<exists>ex' rules'.
                           List.find (\<lambda>(ex, rules). list_ex (\<lambda>k. processed k = None) rules) cur'
                             = Some (ex', rules')
                           \<and> main opts args fs = ([stale_line (res_id result) ex'], SysExit 1))))"
proof -
  have run: "(\<exists>a. process_outcomes fs ign [] (outcomes_of root) = Inl a
                      \<and> main opts args fs = abort_result a)
                \<and> exit_status (snd (main opts args fs)) = 1
                \<and> (process_outcomes fs ign [] pre = Inr (ign_a, rs_a)
                      \<and> process_issues outcome (lookup_ignored ign_a (res_id result)) result
                            (findall_issue outcome) = Inr (cur', result')
                    \<longrightarrow> (\<exists>ex' rules'.
                           List.find (\<lambda>(ex, rules). list_ex (\<lambda>k. processed k = None) rules) cur'
                             = Some (ex', rules')
                           \<and> main opts args fs = ([stale_line (res_id result) ex'], SysExit 1)))"
    if h: "processed k = None" "check_options opts args = Inr (report, fl, vl)"
      "load_ignored_issues opts fs = Inr ign" "ET_parse fs report = Loaded root"
      "outcomes_of root = pre @ outcome # rest" "file_name_of outcome = Inr path"
      "Result_init fs path = Inr result" "map_of ign (res_id result) = Some (Some cur)"
      "(ex, rules) \<in> set cur" "k \<in> set rules"
  proof -
    have stale: "stale_forever (lookup_ignored ign (res_id result))"
      using stale_forever_intro [OF h(9) h(10) assms h(1)] h(8) by (simp add: lookup_ignored_def)
    have abort: "\<exists>a. process_outcomes fs ign [] (outcomes_of root) = Inl a"
    proof (cases "process_outcomes fs ign [] (outcomes_of root)")
      case (Inl a)
      then show ?thesis by simp
    next
      case (Inr p)
      obtain ign' rs' where "p = (ign', rs')" by (cases p)
      with Inr process_outcomes_keeps [OF _ stale, of fs "[]" "outcomes_of root" ign' rs'] h(5-7)
      show ?thesis by auto
    qed
    then obtain a where a: "process_outcomes fs ign [] (outcomes_of root) = Inl a" by blast
    with h(2-4) have m: "main opts args fs = abort_result a" by (simp add: main_def)
    have status: "exit_status (snd (main opts args fs)) = 1"
      using m by (cases a) (simp_all add: abort_result_def)
    have reached: "\<exists>ex' rules'.
                     List.find (\<lambda>(ex, rules). list_ex (\<lambda>k. processed k = None) rules) cur'
                       = Some (ex', rules')
                     \<and> main opts args fs = ([stale_line (res_id result) ex'], SysExit 1)"
      if w: "process_outcomes fs ign [] pre = Inr (ign_a, rs_a)"
        "process_issues outcome (lookup_ignored ign_a (res_id result)) result
           (findall_issue outcome) = Inr (cur', result')"
    proof -
      from process_outcomes_keeps [OF w(1) stale]
      have "stale_forever (lookup_ignored ign_a (res_id result))" by simp
      from process_issues_keeps [OF w(2) this] have "stale_forever cur'" .
      from stale_forever_found [OF this] obtain ex' rules' where
        f: "List.find (\<lambda>(ex, rules). list_ex (\<lambda>k. processed k = None) rules) cur' = Some (ex', rules')"
        by blast
      then have "check_processed (res_id result) cur' = Some (Exit1 (stale_line (res_id result) ex'))"
        by (simp add: check_processed_find)
      with h(6,7) w(2)
      have "process_outcome fs ign_a outcome = Inl (Exit1 (stale_line (res_id result) ex'))"
        by (simp add: process_outcome_def)
      from main_abort_at [OF h(2-5) w(1) this] f show ?thesis
        by (auto simp: abort_result_def)
    qed
    from a m status reached show ?thesis by blast
  qed
  from no_message_no_match [OF assms, of t] match_without_message [OF assms, of rid_m ex_m t before after] run
  show ?thesis by blast
qed

theorem rule_without_message_witness:
  "match_known_issues (Some ''a'') ''Patient.name'' ''Bad name'' ([ex_rule ''Bad''] @ ex_no_message # [])
     = Inr (True, [(ex_rule ''Bad'')\<lparr>processed := Some True\<rparr>, ex_no_message])
   \<and> main ex_options [''report.xml'']
       (ex_files ex_report_error (Loaded (YamlDict (ex_rules_a [ex_rule ''Bad'', ex_no_message]))))
     = ([''An ignored issue was provided for a/Patient.name, but the issue didn't occur''], SysExit 1)"
proof -
  let ?ign = "ex_rules_a [ex_rule ''Bad'', ex_no_message]"
  let ?fs = "ex_files ex_report_error (Loaded (YamlDict ?ign))"
  let ?r = "\<lparr>file_path = ''a.xml'', res_id = Some ''a'', issues = []\<rparr>"
  let ?cur' = "[(''Patient.name'', [(ex_rule ''Bad'')\<lparr>processed := Some True\<rparr>, ex_no_message])]"
  have k: "message ex_no_message = None" by code_simp
  have k': "processed ex_no_message = None" by code_simp
  have a: "check_options ex_options [''report.xml''] = Inr (''report.xml'', 1, 3)" by code_simp
  have b: "load_ignored_issues ex_options ?fs = Inr ?ign" by code_simp
  have c: "ET_parse ?fs ''report.xml'' = Loaded ex_report_error" by code_simp
  have d: "outcomes_of ex_report_error = [] @ ex_report_error # []" by code_simp
  have e: "process_outcomes ?fs ?ign [] [] = Inr (?ign, [])" by simp
  have f: "file_name_of ex_report_error = Inr ''a.xml''" by code_simp
  have g: "Result_init ?fs ''a.xml'' = Inr ?r" by code_simp
  have h: "map_of ?ign (res_id ?r) = Some (Some [(''Patient.name'', [ex_rule ''Bad'', ex_no_message])])"
    by code_simp
  have i: "(''Patient.name'', [ex_rule ''Bad'', ex_no_message])
             \<in> set [(''Patient.name'', [ex_rule ''Bad'', ex_no_message])]" by simp
  have j: "ex_no_message \<in> set [ex_rule ''Bad'', ex_no_message]" by simp
  have l: "process_issues ex_report_error (lookup_ignored ?ign (res_id ?r)) ?r
             (findall_issue ex_report_error) = Inr (?cur', ?r)" by code_simp
  have m: "List.find (\<lambda>(ex, rules). list_ex (\<lambda>k. processed k = None) rules) ?cur'
             = Some (''Patient.name'', [(ex_rule ''Bad'')\<lparr>processed := Some True\<rparr>, ex_no_message])"
    by code_simp
  have n: "match_known_issues (Some ''a'') ''Patient.name'' ''Bad name'' ([ex_rule ''Bad''] @ [])
             = Inr (True, [(ex_rule ''Bad'')\<lparr>processed := Some True\<rparr>])" by code_simp
  note inst = rule_without_message [OF k, where t = "''Bad name''" and rid_m = "Some ''a''"
      and ex_m = "''Patient.name''" and before = "[ex_rule ''Bad'']" and after = "[]"
      and opts = ex_options and args = "[''report.xml'']" and report = "''report.xml''"
      and fl = 1 and vl = 3 and fs = ?fs and ign = ?ign and root = ex_report_error
      and pre = "[]" and outcome = ex_report_error and rest = "[]" and path = "''a.xml''"
      and result = ?r and cur = "[(''Patient.name'', [ex_rule ''Bad'', ex_no_message])]"
      and ex = "''Patient.name''" and rules = "[ex_rule ''Bad'', ex_no_message]"
      and ign_a = ?ign and rs_a = "[]" and cur' = ?cur' and result' = ?r]
  have first: "match_known_issues (Some ''a'') ''Patient.name'' ''Bad name'' ([ex_rule ''Bad''] @ ex_no_message # [])
     = Inr (True, [(ex_rule ''Bad'')\<lparr>processed := Some True\<rparr>, ex_no_message])"
    using inst n by simp
  have second: "main ex_options [''report.xml''] ?fs
     = ([''An ignored issue was provided for a/Patient.name, but the issue didn't occur''], SysExit 1)"
    using inst k' a b c d e f g h i j l m by (simp add: stale_line_def str_id_def)
  from first second show ?thesis by simp
qed

text \<open>
  C10, the claim as stated fails in two runs. In the first the resource has a rule without
  a message and a rule with the message \<^verbatim>\<open>Bad\<close> and no reason, and the report has an
  issue \<^verbatim>\<open>Bad name\<close>: the run ends with the line for the missing reason, not with the one
  for a rule that no issue matched. In the second the rule without a message has a key
  \<^verbatim>\<open>processed\<close> in the YAML file itself: the run reports success.
\<close>

theorem rule_without_message_counterexample:
  "main ex_options [''report.xml'']
      (ex_files ex_report_error
         (Loaded (YamlDict (ex_rules_a
            [ex_no_message, \<lparr>message = Some ''Bad'', reason = None, processed = None\<rparr>]))))
     = ([''Issue at a/Patient.name ignored without providing a reason''], SysExit 1)
   \<and> main ex_options [''report.xml'']
      (ex_files (ex_outcome ''a.xml'' [])
         (Loaded (YamlDict (ex_rules_a [ex_no_message\<lparr>processed := Some False\<rparr>]))))
     = ([''All well''], Returned)"
  by code_simp

end
